theory Spec2Isabelle
  imports Complex_Main
begin

section \<open>JavaScript string primitives used by the adapter\<close>

text \<open>
  A JavaScript string is modelled as a \<^typ>\<open>string\<close>: one \<^typ>\<open>char\<close> per code unit,
  so that \<open>length\<close> is the source's \<open>.length\<close>.

  \<open>text.split(' ')\<close>: the pieces between the occurrences of the space character. The
  empty string splits into one empty piece; adjacent spaces give empty pieces.
\<close>

fun split_space :: "string \<Rightarrow> string list" where
  "split_space [] = [[]]"
| "split_space (c # cs) =
     (if c = CHR '' '' then [] # split_space cs
      else (case split_space cs of [] \<Rightarrow> [[c]] | w # ws \<Rightarrow> (c # w) # ws))"

text \<open>\<open>words.join(' ')\<close>.\<close>

fun join_space :: "string list \<Rightarrow> string" where
  "join_space [] = []"
| "join_space [w] = w"
| "join_space (w # v # ws) = w @ CHR '' '' # join_space (v # ws)"

text \<open>\<open>xs.slice(i, j)\<close> for indices \<open>0 \<le> i \<le> j\<close>; an end past the array is cut off.\<close>

definition slice :: "'a list \<Rightarrow> nat \<Rightarrow> nat \<Rightarrow> 'a list" where
  "slice xs i j = take (j - i) (drop i xs)"

text \<open>
  \<open>s.trim()\<close>: white space and line terminators are removed at both ends. Of
  JavaScript's white space these are the code units a \<^typ>\<open>char\<close> can hold: tab, line feed,
  vertical tab, form feed, carriage return, space and no-break space.
\<close>

definition is_space :: "char \<Rightarrow> bool" where
  "is_space c = ((of_char c :: nat) \<in> {9, 10, 11, 12, 13, 32, 160})"

definition trim :: "string \<Rightarrow> string" where
  "trim s = rev (dropWhile is_space (rev (dropWhile is_space s)))"

text \<open>\<open>s.replace(pat, '')\<close> with a string pattern: the first occurrence is removed.\<close>

fun remove_first :: "string \<Rightarrow> string \<Rightarrow> string" where
  "remove_first pat [] = []"
| "remove_first pat (c # cs) =
     (if take (length pat) (c # cs) = pat then drop (length pat) (c # cs)
      else c # remove_first pat cs)"

text \<open>\<open>s.replace(/pat$/, '')\<close> for a literal \<open>pat\<close>: removed when the string ends with it.\<close>

definition remove_suffix :: "string \<Rightarrow> string \<Rightarrow> string" where
  "remove_suffix pat s =
     (if length pat \<le> length s \<and> drop (length s - length pat) s = pat
      then take (length s - length pat) s else s)"

section \<open>chat.js: ChatHandler.splitIntoChunks\<close>

text \<open>
  The \<open>for (let i = 0; i < words.length; i += chunkSize)\<close> loop, with the array
  \<open>chunks\<close> it pushes to as accumulator. With \<open>chunkSize = 0\<close> the index never
  advances and the loop does not return: that is the result \<open>None\<close>.
\<close>

function chunks_loop :: "string list \<Rightarrow> nat \<Rightarrow> nat \<Rightarrow> string list \<Rightarrow> string list option" where
  "chunks_loop words chunkSize i chunks =
     (if i < length words then
        (if chunkSize = 0 then None
         else
           (let chunk = join_space (slice words i (i + chunkSize))
            in chunks_loop words chunkSize (i + chunkSize)
                 (chunks @ [if i + chunkSize < length words then chunk @ '' '' else chunk])))
      else Some chunks)"
  by pat_completeness auto
termination
  by (relation "measure (\<lambda>(words, chunkSize, i, chunks). length words - i)") auto

declare chunks_loop.simps [simp del]

definition splitIntoChunks :: "string \<Rightarrow> nat \<Rightarrow> string list option" where
  "splitIntoChunks text chunkSize = chunks_loop (split_space text) chunkSize 0 []"

section \<open>app.js: the streaming word loop\<close>

text \<open>
  \<open>for (let i = 0; i < words.length; i++)\<close> writes one content chunk per word, whose
  payload is \<open>i === 0 ? words[i] : ' ' + words[i]\<close>.
\<close>

fun word_payloads :: "nat \<Rightarrow> string list \<Rightarrow> string list" where
  "word_payloads i [] = []"
| "word_payloads i (w # ws) = (if i = 0 then w else CHR '' '' # w) # word_payloads (Suc i) ws"

definition stream_word_payloads :: "string \<Rightarrow> string list" where
  "stream_word_payloads response = word_payloads 0 (split_space response)"

section \<open>JSON values and HTTP responses\<close>

text \<open>
  The object literals the handlers build, as JSON values: an object keeps its members in
  the order the source writes them, a member whose value is \<open>undefined\<close> is left out (as
  \<open>JSON.stringify\<close> and \<open>res.json\<close> do), numbers are the integers the code puts there
  (lengths, timestamps, counters).
\<close>

datatype json =
    JNull
  | JBool bool
  | JNum int
  | JStr string
  | JArr "json list"
  | JObj "(string \<times> json) list"

text \<open>Member access \<open>j.k\<close>; \<open>None\<close> stands for \<open>undefined\<close>.\<close>

fun field :: "string \<Rightarrow> json \<Rightarrow> json option" where
  "field k (JObj kvs) = map_of kvs k"
| "field k _ = None"


text \<open>\<open>res.status(code).json(body)\<close>; \<open>res.json(body)\<close> answers with status 200.\<close>

datatype http_response = Response nat json

fun status_of :: "http_response \<Rightarrow> nat" where
  "status_of (Response code body) = code"

fun body_of :: "http_response \<Rightarrow> json" where
  "body_of (Response code body) = body"

text \<open>
  What a streaming handler writes to the socket: \<open>Data j\<close> is the line
  \<open>data: ${JSON.stringify(j)}\n\n\<close>, \<open>Done\<close> is the literal line \<open>data: [DONE]\n\n\<close>.
\<close>

datatype sse = Data json | Done

section \<open>config.js\<close>

definition MODEL_PATHS :: "string list" where
  "MODEL_PATHS = [''chatGPT'', ''deepseek'', ''qwen'', ''Claude-3'', ''Gemini'', ''grok'',
     ''bytedance-seed'', ''gpt-oss'', ''llama'']"

text \<open>
  \<open>path.toLowerCase()\<close> on the code units of the ASCII range, which is where the
  configured paths live; the other code units are left as they are.
\<close>

definition lower_char :: "char \<Rightarrow> char" where
  "lower_char c =
     (case map_of (zip ''ABCDEFGHIJKLMNOPQRSTUVWXYZ'' ''abcdefghijklmnopqrstuvwxyz'') c of
        None \<Rightarrow> c
      | Some l \<Rightarrow> l)"

definition toLowerCase :: "string \<Rightarrow> string" where
  "toLowerCase s = map lower_char s"

section \<open>The remote site as the catalog refresh sees it\<close>

text \<open>
  One \<open>axios.get\<close> of a path either throws (network error, status outside 2xx, timeout)
  or gives a document. Of the document the code reads the element with id
  \<open>select_model\<close> (\<open>None\<close> when there is none) and its \<open>option\<close> elements in document
  order: of each its \<open>value\<close> attribute (\<open>None\<close> without the attribute) and its text.
\<close>

datatype fetch_result = FetchThrows | Document "(string option \<times> string) list option"

type_synonym site = "string \<Rightarrow> fetch_result"

text \<open>
  cheerio's \<open>$(element).attr('value')\<close> on an option: the attribute, and the text of the
  option when it has no such attribute.
\<close>

fun attr_value :: "string option \<times> string \<Rightarrow> string" where
  "attr_value (Some v, t) = v"
| "attr_value (None, t) = t"

datatype failure =
    UpstreamFetchError
  | NoModelsFound          \<comment> \<open>\<open>new Error('No models found from any path')\<close>\<close>

text \<open>\<open>Promise.all\<close>: the results in order, or the first rejection.\<close>

fun promise_all :: "(failure + 'a) list \<Rightarrow> failure + 'a list" where
  "promise_all [] = Inr []"
| "promise_all (Inl e # ps) = Inl e"
| "promise_all (Inr x # ps) = (case promise_all ps of Inl e \<Rightarrow> Inl e | Inr xs \<Rightarrow> Inr (x # xs))"

section \<open>database.js: the catalog store\<close>

record model_row =
  row_id :: string
  group_name :: string
  created_at :: int
  updated_at :: int

record cache_row =
  cache_value :: json
  expires_at :: int

text \<open>
  Table \<open>models\<close> in insertion order (\<open>id\<close> is the primary key) and table \<open>cache\<close> by its
  primary key \<open>key\<close>. The \<open>value\<close> column holds \<open>JSON.stringify\<close> text; the model keeps
  the JSON value that text denotes.
\<close>

record database =
  models :: "model_row list"
  cache :: "string \<rightharpoonup> cache_row"

text \<open>A fetched model, \<open>{ id, group }\<close>.\<close>

record fetched_model =
  model_id :: string
  model_group :: string

text \<open>
  The loop \<open>for (const model of models) stmt.run(model.id, model.group, now, now)\<close>.
  \<open>INSERT INTO models\<close> is refused when the primary key is already in the table;
  \<open>stmt.run\<close> is given no callback, so the error is emitted on the statement, where
  nobody listens, and the process ends: that is the result \<open>None\<close>. No answer is sent
  after it.
\<close>

fun insert_models :: "int \<Rightarrow> fetched_model list \<Rightarrow> model_row list \<Rightarrow> model_row list option" where
  "insert_models now [] tbl = Some tbl"
| "insert_models now (m # ms) tbl =
     (if model_id m \<in> set (map row_id tbl) then None
      else insert_models now ms
             (tbl @ [\<lparr>row_id = model_id m, group_name = model_group m,
                       created_at = now, updated_at = now\<rparr>]))"

text \<open>\<open>INSERT OR REPLACE INTO cache (key, value, expires_at)\<close>.\<close>

definition setCache :: "string \<Rightarrow> json \<Rightarrow> int \<Rightarrow> database \<Rightarrow> database" where
  "setCache key v expiresAt db =
     db\<lparr>cache := (cache db)(key \<mapsto> \<lparr>cache_value = v, expires_at = expiresAt\<rparr>)\<rparr>"

text \<open>\<open>SELECT value FROM cache WHERE key = ? AND expires_at > ?\<close> with \<open>Date.now()\<close>.\<close>

definition getCache :: "string \<Rightarrow> int \<Rightarrow> database \<Rightarrow> json option" where
  "getCache key now db =
     (case cache db key of
        None \<Rightarrow> None
      | Some row \<Rightarrow> if expires_at row > now then Some (cache_value row) else None)"

text \<open>
  \<open>saveModels\<close>: \<open>DELETE FROM models\<close>, the inserts, then the cache stamp; \<open>None\<close>
  when the process ends in the inserts. \<open>days\<close> is \<open>MODEL_CACHE_DAYS\<close>, \<open>now\<close> is
  \<open>Date.now()\<close>.
\<close>

definition saveModels :: "int \<Rightarrow> int \<Rightarrow> fetched_model list \<Rightarrow> database \<Rightarrow> database option" where
  "saveModels days now ms db =
     (let expires = now + days * 24 * 60 * 60 * 1000
      in case insert_models now ms [] of
           None \<Rightarrow> None
         | Some tbl \<Rightarrow>
             Some (setCache ''models_updated'' (JObj [(''timestamp'', JNum now)]) expires
                     (db\<lparr>models := tbl\<rparr>)))"

definition getModels :: "database \<Rightarrow> model_row list" where
  "getModels db = models db"

definition isModelsCacheValid :: "int \<Rightarrow> int \<Rightarrow> database \<Rightarrow> bool" where
  "isModelsCacheValid days now db =
     (case getCache ''models_updated'' now db of
        None \<Rightarrow> False
      | Some data \<Rightarrow>
          (case field ''timestamp'' data of
             Some (JNum timestamp) \<Rightarrow> now < timestamp + days * 24 * 60 * 60 * 1000
           | _ \<Rightarrow> False))"

text \<open>\<open>SELECT group_name FROM models WHERE id = ?\<close>.\<close>

definition findModelGroup :: "string \<Rightarrow> database \<Rightarrow> string option" where
  "findModelGroup modelId db =
     (case find (\<lambda>r. row_id r = modelId) (models db) of
        None \<Rightarrow> None
      | Some r \<Rightarrow> Some (group_name r))"

section \<open>models.js: ModelManager\<close>

text \<open>
  The body of the \<open>try\<close> of \<open>fetchModelsFromPage\<close>: \<open>$('#select_model option')\<close> is empty
  when the document has no such element; an option counts when its \<open>value\<close> is truthy
  (not the empty string).
\<close>

definition page_models :: "site \<Rightarrow> string \<Rightarrow> failure + fetched_model list" where
  "page_models web path =
     (case web path of
        FetchThrows \<Rightarrow> Inl UpstreamFetchError
      | Document sel \<Rightarrow>
          Inr (concat (map (\<lambda>element.
                              (let value = attr_value element
                               in if value \<noteq> [] then [\<lparr>model_id = value, model_group = toLowerCase path\<rparr>]
                                  else []))
                 (case sel of None \<Rightarrow> [] | Some opts \<Rightarrow> opts))))"

text \<open>\<open>fetchModelsFromPage\<close>: the \<open>catch\<close> turns every failure into the empty list.\<close>

definition fetchModelsFromPage :: "site \<Rightarrow> string \<Rightarrow> failure + fetched_model list" where
  "fetchModelsFromPage web path =
     (case page_models web path of Inl e \<Rightarrow> Inr [] | Inr ms \<Rightarrow> Inr ms)"

definition fetchAllModels :: "site \<Rightarrow> failure + fetched_model list" where
  "fetchAllModels web =
     (case promise_all (map (fetchModelsFromPage web) MODEL_PATHS) of
        Inl e \<Rightarrow> Inl e
      | Inr results \<Rightarrow> Inr (concat results))"

text \<open>
  \<open>formatModelsResponse\<close>, on table rows (which have \<open>group_name\<close>) and on fetched
  models (which have \<open>group\<close>): an entry is its id and these two members, \<open>None\<close> for
  the one it does not have. \<open>owned_by\<close> is \<open>model.group_name || model.group\<close>, and is
  left out of the JSON when that is \<open>undefined\<close>. \<open>nowSec\<close> is
  \<open>Math.floor(Date.now() / 1000)\<close>.
\<close>

definition formatModelsResponse :: "int \<Rightarrow> (string \<times> string option \<times> string option) list \<Rightarrow> json" where
  "formatModelsResponse nowSec ms =
     JObj [(''object'', JStr ''list''),
           (''data'',
            JArr (map (\<lambda>(i, row_group, fetched_group).
                         JObj ([(''id'', JStr i), (''object'', JStr ''model''), (''created'', JNum nowSec)]
                               @ (case (if (case row_group of None \<Rightarrow> False | Some g \<Rightarrow> g \<noteq> [])
                                        then row_group else fetched_group) of
                                    None \<Rightarrow> []
                                  | Some g \<Rightarrow> [(''owned_by'', JStr g)])))
                    ms))]"

text \<open>
  \<open>getModelsList(forceRefresh)\<close>: the answer (or the failure it rejects with) and the
  database afterwards; \<open>None\<close> when the process ends in \<open>saveModels\<close>.
\<close>

definition getModelsList :: "int \<Rightarrow> int \<Rightarrow> site \<Rightarrow> bool \<Rightarrow> database \<Rightarrow> ((failure + json) \<times> database) option" where
  "getModelsList days now web forceRefresh db =
     (if \<not> forceRefresh \<and> isModelsCacheValid days now db \<and> getModels db \<noteq> []
      then Some (Inr (formatModelsResponse (now div 1000)
                        (map (\<lambda>r. (row_id r, Some (group_name r), None)) (getModels db))), db)
      else
        (case fetchAllModels web of
           Inl e \<Rightarrow> Some (Inl e, db)
         | Inr ms \<Rightarrow>
             (if ms \<noteq> [] then
                (case saveModels days now ms db of
                   None \<Rightarrow> None
                 | Some db' \<Rightarrow>
                     Some (Inr (formatModelsResponse (now div 1000)
                                  (map (\<lambda>m. (model_id m, None, Some (model_group m))) ms)), db'))
              else
                Some (Inr (formatModelsResponse (now div 1000)
                             (map (\<lambda>m. (model_id m, None, Some (model_group m))) ms)), db))))"

section \<open>app.js: the catalog\<close>

record app_model =
  am_id :: string
  am_group :: string
  am_path :: string

record app_row =
  ar_id :: string
  ar_group_name :: string
  ar_path :: string
  ar_created_at :: int

text \<open>Tables \<open>models\<close> and \<open>cache_metadata\<close> (\<open>key\<close> to \<open>created_at\<close>, \<open>expires_at\<close>).\<close>

record app_database =
  app_models :: "app_row list"
  cache_metadata :: "string \<rightharpoonup> int \<times> int"

text \<open>
  The body of the \<open>try\<close> of \<open>fetchModelsFromPath\<close>: no \<open>#select_model\<close> gives the empty
  list; an option counts when \<open>value && value.trim()\<close> is truthy, with id \<open>value.trim()\<close>.
\<close>

definition path_models :: "site \<Rightarrow> string \<Rightarrow> failure + app_model list" where
  "path_models web pathName =
     (case web pathName of
        FetchThrows \<Rightarrow> Inl UpstreamFetchError
      | Document None \<Rightarrow> Inr []
      | Document (Some opts) \<Rightarrow>
          Inr (concat (map (\<lambda>element.
                              (let value = attr_value element
                               in if value \<noteq> [] \<and> trim value \<noteq> []
                                  then [\<lparr>am_id = trim value, am_group = toLowerCase pathName,
                                         am_path = pathName\<rparr>]
                                  else []))
                 opts)))"

definition fetchModelsFromPath :: "site \<Rightarrow> string \<Rightarrow> failure + app_model list" where
  "fetchModelsFromPath web pathName =
     (case path_models web pathName of Inl e \<Rightarrow> Inr [] | Inr ms \<Rightarrow> Inr ms)"

text \<open>
  The \<open>for (const model of allModels) stmt.run(...)\<close> loop; as in \<open>insert_models\<close>, a
  refused INSERT ends the process.
\<close>

fun app_insert_models :: "int \<Rightarrow> app_model list \<Rightarrow> app_row list \<Rightarrow> app_row list option" where
  "app_insert_models now [] tbl = Some tbl"
| "app_insert_models now (m # ms) tbl =
     (if am_id m \<in> set (map ar_id tbl) then None
      else app_insert_models now ms
             (tbl @ [\<lparr>ar_id = am_id m, ar_group_name = am_group m, ar_path = am_path m,
                       ar_created_at = now\<rparr>]))"

text \<open>
  app.js \<open>fetchAllModels\<close>: the models it resolves with or the error it throws, and the
  database afterwards; \<open>None\<close> when the process ends in the inserts. \<open>days\<close> is
  \<open>MODEL_CACHE_DAYS\<close>, \<open>now\<close> is \<open>Math.floor(Date.now() / 1000)\<close>.
\<close>

definition app_fetchAllModels :: "int \<Rightarrow> int \<Rightarrow> site \<Rightarrow> app_database \<Rightarrow> ((failure + app_model list) \<times> app_database) option" where
  "app_fetchAllModels days now web db =
     (case promise_all (map (fetchModelsFromPath web) MODEL_PATHS) of
        Inl e \<Rightarrow> Some (Inl e, db)
      | Inr results \<Rightarrow>
          (let allModels = concat results
           in if length allModels = 0 then Some (Inl NoModelsFound, db)
              else
                (case app_insert_models now allModels [] of
                   None \<Rightarrow> None
                 | Some tbl \<Rightarrow>
                     Some (Inr allModels,
                           db\<lparr>app_models := tbl,
                              cache_metadata := (cache_metadata db)(''models'' \<mapsto> (now, now + days * 24 * 60 * 60))\<rparr>))))"


section \<open>server.js: the catalog\<close>

text \<open>
  What \<open>discoverModels\<close> gets from one path: navigation throws, or the page is there and
  \<open>page.evaluate\<close> gives the \<open>value\<close> and trimmed text of every option of
  \<open>#select_model\<close> (the empty list when the page has no such element).
\<close>

datatype discovery = NavigationThrows | Options "(string \<times> string) list"

text \<open>\<open>INSERT OR REPLACE INTO models\<close>: a row with the same id is dropped first.\<close>

definition upsert_model :: "model_row \<Rightarrow> model_row list \<Rightarrow> model_row list" where
  "upsert_model r tbl = filter (\<lambda>x. row_id x \<noteq> row_id r) tbl @ [r]"

text \<open>
  One callback of \<open>MODEL_PATHS.map\<close>: the options it returns (tagged with the group) and
  the table after its \<open>stmt.run\<close> calls. A path that throws returns \<open>[]\<close>.
\<close>

definition discover_path :: "int \<Rightarrow> (string \<Rightarrow> discovery) \<Rightarrow> string \<Rightarrow> model_row list \<Rightarrow> json list \<times> model_row list" where
  "discover_path timestamp web modelPath tbl =
     (case web modelPath of
        NavigationThrows \<Rightarrow> ([], tbl)
      | Options modelOptions \<Rightarrow>
          (map (\<lambda>(i, t). JObj [(''id'', JStr i), (''text'', JStr t),
                               (''group'', JStr (toLowerCase modelPath))]) modelOptions,
           foldl (\<lambda>tb (i, t). upsert_model \<lparr>row_id = i, group_name = toLowerCase modelPath,
                                              created_at = timestamp, updated_at = timestamp\<rparr> tb)
             tbl modelOptions))"

text \<open>
  \<open>discoverModels\<close>: \<open>results.flat()\<close> in the order of the paths. Each callback writes
  its rows in one synchronous block; the model runs the blocks in the order of the paths.
\<close>

fun discover_paths :: "int \<Rightarrow> (string \<Rightarrow> discovery) \<Rightarrow> string list \<Rightarrow> model_row list \<Rightarrow> json list \<times> model_row list" where
  "discover_paths timestamp web [] tbl = ([], tbl)"
| "discover_paths timestamp web (p # ps) tbl =
     (case discover_path timestamp web p tbl of
        (found, tbl') \<Rightarrow>
          (case discover_paths timestamp web ps tbl' of
             (rest, tbl'') \<Rightarrow> (found @ rest, tbl'')))"

definition discoverModels :: "int \<Rightarrow> (string \<Rightarrow> discovery) \<Rightarrow> database \<Rightarrow> json list \<times> database" where
  "discoverModels timestamp web db =
     (case discover_paths timestamp web MODEL_PATHS (models db) of
        (found, tbl) \<Rightarrow> (found, db\<lparr>models := tbl\<rparr>))"

text \<open>
  server.js \<open>getModels\<close>: the cached list under \<open>model_list\<close> while it has not expired,
  else a discovery, cached when it found something. The second component counts the
  discoveries made.
\<close>

definition server_getModels :: "int \<Rightarrow> int \<Rightarrow> (string \<Rightarrow> discovery) \<Rightarrow> database \<Rightarrow> json list \<times> nat \<times> database" where
  "server_getModels days now web db =
     (case getCache ''model_list'' now db of
        Some (JArr cached) \<Rightarrow> (cached, 0, db)
      | _ \<Rightarrow>
          (case discoverModels now web db of
             (found, db') \<Rightarrow>
               (if length found > 0
                then (found, 1, setCache ''model_list'' (JArr found) (now + days * 24 * 60 * 60 * 1000) db')
                else (found, 1, db'))))"

text \<open>The ids of the entries a discovery returned.\<close>

definition found_ids :: "json list \<Rightarrow> string list" where
  "found_ids found = concat (map (\<lambda>j. case field ''id'' j of Some (JStr i) \<Rightarrow> [i] | _ \<Rightarrow> []) found)"

section \<open>Example inputs\<close>

text \<open>A site where one path throws, two offer models and the others have no selector.\<close>

definition partial_site :: site where
  "partial_site =
     (\<lambda>p. if p = ''chatGPT'' then Document (Some [(Some ''gpt-4'', ''GPT 4''), (None, ''o1''), (Some '''', ''none'')])
          else if p = ''deepseek'' then FetchThrows
          else if p = ''qwen'' then Document (Some [(Some ''qwen-max'', ''Qwen Max'')])
          else Document None)"

text \<open>A site where every fetch throws.\<close>

definition unreachable_site :: site where
  "unreachable_site = (\<lambda>p. FetchThrows)"

definition stale_database :: database where
  "stale_database =
     \<lparr>models = [\<lparr>row_id = ''old-model'', group_name = ''qwen'', created_at = 1, updated_at = 1\<rparr>],
      cache = [''k'' \<mapsto> \<lparr>cache_value = JStr ''v'', expires_at = 100\<rparr>]\<rparr>"

definition stale_app_database :: app_database where
  "stale_app_database =
     \<lparr>app_models = [\<lparr>ar_id = ''old-model'', ar_group_name = ''qwen'', ar_path = ''qwen'',
                      ar_created_at = 1\<rparr>],
      cache_metadata = Map.empty\<rparr>"

text \<open>A site, as the browser of server.js sees it, that offers one model on one path.\<close>

definition one_model_site :: "string \<Rightarrow> discovery" where
  "one_model_site = (\<lambda>p. if p = ''chatGPT'' then Options [(''gpt-4'', ''GPT 4'')] else NavigationThrows)"

section \<open>Numbers read from the page\<close>

text \<open>
  \<open>parseFloat\<close> gives a number or \<open>NaN\<close>. A comparison with \<open>NaN\<close> is false, and
  \<open>v || d\<close> takes \<open>d\<close> when \<open>v\<close> is \<open>NaN\<close> or zero. Finite numbers are compared as the
  reals they denote.
\<close>

datatype number = NaN | Num real

definition at_least :: "real \<Rightarrow> number \<Rightarrow> bool" where
  "at_least t n = (case n of NaN \<Rightarrow> False | Num x \<Rightarrow> x \<le> t)"

definition at_most :: "real \<Rightarrow> number \<Rightarrow> bool" where
  "at_most t n = (case n of NaN \<Rightarrow> False | Num x \<Rightarrow> t \<le> x)"

definition or_default :: "number \<Rightarrow> real \<Rightarrow> number" where
  "or_default v d = (case v of NaN \<Rightarrow> Num d | Num x \<Rightarrow> if x = 0 then Num d else Num x)"

text \<open>
  The \<open>#temperature\<close> input of the page: \<open>parseFloat(el.min)\<close> and \<open>parseFloat(el.max)\<close>.
\<close>

record temperature_control =
  control_min :: number
  control_max :: number

section \<open>Setting the temperature\<close>

text \<open>
  The \<open>temperature\<close> member of the request body: absent (\<open>undefined\<close>), JSON
  \<open>null\<close>, or a number. In \<open>>=\<close> and \<open><=\<close> the value \<open>null\<close> counts as 0.
\<close>

datatype temperature_field = NoTemperature | NullTemperature | Temperature real

fun compared :: "temperature_field \<Rightarrow> real" where
  "compared (Temperature t) = t"
| "compared NullTemperature = 0"
| "compared NoTemperature = 0"

text \<open>
  What is written to the control: a number, or for \<open>null\<close> the empty string that the
  \<open>value\<close> setter of an input makes of it.
\<close>

datatype control_value = Blank | Value real

text \<open>
  Each of the three functions gives the value written to the control, \<open>None\<close> when the
  control is not written. \<open>tempInput\<close> is the control (\<open>None\<close> when the page has none).

  app.js \<open>simulateBrowserInteraction\<close>, lines 307 to 329. \<open>temp.toString()\<close> throws a
  TypeError on \<open>null\<close>, inside \<open>page.evaluate\<close>: that is \<open>Inl\<close> with the message.
\<close>

definition app_set_temperature :: "temperature_field \<Rightarrow> temperature_control option \<Rightarrow> string + control_value option" where
  "app_set_temperature temperature tempInput =
     (if temperature \<noteq> NoTemperature \<and> compared temperature \<ge> 0.0 \<and> compared temperature \<le> 2.0 then
        (case tempInput of
           None \<Rightarrow> Inr None
         | Some el \<Rightarrow>
             (let minVal = or_default (control_min el) 0.0;
                  maxVal = or_default (control_max el) 2.0
              in if at_least (compared temperature) minVal \<and> at_most (compared temperature) maxVal
                 then (case temperature of
                         Temperature t \<Rightarrow> Inr (Some (Value t))
                       | _ \<Rightarrow> Inl (''Cannot read properties of null (reading '' @ [CHR 0x27]
                                     @ ''toString'' @ [CHR 0x27] @ '')''))
                 else Inr None))
      else Inr None)"



section \<open>server.js: watching the page\<close>

text \<open>
  An element of class \<open>response\<close>: its \<open>textContent\<close> and whether it contains an element
  of class \<open>copyres\<close>. A document is its \<open>.response\<close> elements in document order.
\<close>

record response_element =
  textContent :: string
  copyres :: bool

type_synonym document = "response_element list"

text \<open>One \<open>page.evaluate\<close>: it throws, or runs the extractor on the document of that moment.\<close>

datatype poll = EvaluateThrows string | Seen document

text \<open>
  The extractor of \<open>handleNonStreamingResponse\<close>: \<open>null\<close> without a response element or
  without a copy button in the last one.
\<close>

definition nonstream_extract :: "document \<Rightarrow> string option" where
  "nonstream_extract responses =
     (if length responses = 0 then None
      else
        (let lastResponse = last responses
         in if \<not> copyres lastResponse then None
            else Some (trim (remove_first ''Copied!'' (remove_first ''Copy'' (textContent lastResponse))))))"

text \<open>The extractor of \<open>handleStreamingResponse\<close>: \<open>{ content, isComplete }\<close> or \<open>null\<close>.\<close>

definition stream_extract :: "document \<Rightarrow> (string \<times> bool) option" where
  "stream_extract responses =
     (if length responses = 0 then None
      else
        (let lastResponse = last responses
         in Some (trim (remove_first ''Copied!'' (remove_first ''Copy'' (textContent lastResponse))),
                  copyres lastResponse)))"

text \<open>The usage object of server.js.\<close>

definition server_usage :: "string \<Rightarrow> json" where
  "server_usage content =
     JObj [(''prompt_tokens'', JNum 10),
           (''completion_tokens'', JNum (int (length content))),
           (''total_tokens'', JNum (10 + int (length content)))]"

definition server_completion :: "string \<Rightarrow> int \<Rightarrow> string \<Rightarrow> string \<Rightarrow> json" where
  "server_completion chatId created model content =
     JObj [(''id'', JStr chatId), (''object'', JStr ''chat.completion''), (''created'', JNum created),
           (''model'', JStr model),
           (''choices'', JArr [JObj [(''index'', JNum 0),
                                     (''message'', JObj [(''role'', JStr ''assistant''),
                                                         (''content'', JStr content)]),
                                     (''finish_reason'', JStr ''stop'')]]),
           (''usage'', server_usage content)]"

text \<open>
  How the \<open>while (Date.now() - startTime < maxWaitTime)\<close> loop is left: by its
  \<open>return\<close> with the content, by the deadline with \<open>lastContent\<close>, or by an exception
  of \<open>page.evaluate\<close>.
\<close>

datatype wait_exit = Completed string | Deadline string | Thrown string

text \<open>
  The loop over the polls that start before the deadline, with \<open>lastContent\<close> and
  \<open>noChangeCount\<close>. \<open>if (responseContent)\<close> is false for \<open>null\<close> and for the empty string.
\<close>

fun await_response :: "string \<Rightarrow> nat \<Rightarrow> poll list \<Rightarrow> wait_exit" where
  "await_response lastContent noChangeCount [] = Deadline lastContent"
| "await_response lastContent noChangeCount (EvaluateThrows msg # polls) = Thrown msg"
| "await_response lastContent noChangeCount (Seen doc # polls) =
     (case nonstream_extract doc of
        None \<Rightarrow> await_response lastContent noChangeCount polls
      | Some responseContent \<Rightarrow>
          if responseContent = [] then await_response lastContent noChangeCount polls
          else if responseContent = lastContent then
            (if noChangeCount + 1 \<ge> 10 then Completed responseContent
             else await_response lastContent (noChangeCount + 1) polls)
          else await_response responseContent 0 polls)"

text \<open>
  \<open>handleNonStreamingResponse\<close>; an exception leaves it for the \<open>catch\<close> of
  \<open>handleChatCompletion\<close>, which is where the third answer comes from.
\<close>

definition handleNonStreamingResponse :: "string \<Rightarrow> int \<Rightarrow> string \<Rightarrow> poll list \<Rightarrow> http_response" where
  "handleNonStreamingResponse chatId created model polls =
     (case await_response [] 0 polls of
        Completed responseContent \<Rightarrow> Response 200 (server_completion chatId created model responseContent)
      | Deadline lastContent \<Rightarrow>
          if lastContent \<noteq> [] then Response 200 (server_completion chatId created model lastContent)
          else Response 500 (JObj [(''error'', JStr ''Response timeout'')])
      | Thrown msg \<Rightarrow>
          Response 500 (JObj [(''error'', JStr ''Internal server error''), (''details'', JStr msg)]))"

text \<open>
  The texts the polls read, in order: what the extractor returned and
  \<open>if (responseContent)\<close> let through. The extractor reads a text only from a last
  response element that holds the copy button.
\<close>

fun texts_read :: "poll list \<Rightarrow> string list" where
  "texts_read [] = []"
| "texts_read (EvaluateThrows msg # polls) = texts_read polls"
| "texts_read (Seen doc # polls) =
     (case nonstream_extract doc of
        None \<Rightarrow> texts_read polls
      | Some c \<Rightarrow> if c = [] then texts_read polls else c # texts_read polls)"

text \<open>The chunks of \<open>handleStreamingResponse\<close>.\<close>

definition server_chunk :: "string \<Rightarrow> int \<Rightarrow> string \<Rightarrow> json \<Rightarrow> json \<Rightarrow> json" where
  "server_chunk chatId created model delta finish_reason =
     JObj [(''id'', JStr chatId), (''object'', JStr ''chat.completion.chunk''), (''created'', JNum created),
           (''model'', JStr model),
           (''choices'', JArr [JObj [(''index'', JNum 0), (''delta'', delta),
                                     (''finish_reason'', finish_reason)]])]"

definition server_finish_chunk :: "string \<Rightarrow> int \<Rightarrow> string \<Rightarrow> string \<Rightarrow> json" where
  "server_finish_chunk chatId created model lastContent =
     JObj [(''id'', JStr chatId), (''object'', JStr ''chat.completion.chunk''), (''created'', JNum created),
           (''model'', JStr model),
           (''choices'', JArr [JObj [(''index'', JNum 0), (''delta'', JObj []),
                                     (''finish_reason'', JStr ''stop'')]]),
           (''usage'', server_usage lastContent)]"

text \<open>
  The callbacks of \<open>setInterval\<close>, one after the other, for the polls that fire before
  the 60 s timer: what each writes. The timer and an exception end the response without
  writing. \<open>substring(lastContent.length)\<close> is \<open>drop\<close>.
\<close>

fun stream_polls :: "string \<Rightarrow> int \<Rightarrow> string \<Rightarrow> string \<Rightarrow> nat \<Rightarrow> poll list \<Rightarrow> sse list" where
  "stream_polls chatId created model lastContent noChangeCount [] = []"
| "stream_polls chatId created model lastContent noChangeCount (EvaluateThrows msg # polls) = []"
| "stream_polls chatId created model lastContent noChangeCount (Seen doc # polls) =
     (case stream_extract doc of
        None \<Rightarrow> stream_polls chatId created model lastContent noChangeCount polls
      | Some (content, isComplete) \<Rightarrow>
          (let newContent = drop (length lastContent) content;
               written = (content \<noteq> lastContent \<and> newContent \<noteq> []);
               chunk = (if written
                        then [Data (server_chunk chatId created model
                                      (JObj [(''content'', JStr newContent)]) JNull)]
                        else []);
               lastContent' = (if written then content else lastContent);
               noChangeCount' = (if content \<noteq> lastContent then 0 else noChangeCount + 1)
           in if isComplete \<or> noChangeCount' \<ge> 10
              then chunk @ [Data (server_finish_chunk chatId created model lastContent'), Done]
              else chunk @ stream_polls chatId created model lastContent' noChangeCount' polls))"

definition handleStreamingResponse :: "string \<Rightarrow> int \<Rightarrow> string \<Rightarrow> poll list \<Rightarrow> sse list" where
  "handleStreamingResponse chatId created model polls =
     Data (server_chunk chatId created model
             (JObj [(''role'', JStr ''assistant''), (''content'', JNull)]) JNull)
     # stream_polls chatId created model [] 0 polls"

section \<open>app.js: watching the page\<close>

record page_element =
  el_textContent :: string
  el_innerText :: string

text \<open>
  What one pass of the polling loop of \<open>simulateBrowserInteraction\<close> finds: whether
  \<open>page.$('.copyres')\<close> found an element, the \<open>.response\<close> elements in document order
  and the number of \<open>.loading, .typing-indicator, .waiting\<close> elements. A pass can also
  throw, which the \<open>catch\<close> inside the loop counts as an attempt.
\<close>

record snapshot =
  copy_button :: bool
  response_elements :: "page_element list"
  loading_indicators :: nat

datatype attempt = AttemptThrows | Page snapshot

text \<open>\<open>lastResponse.textContent || lastResponse.innerText || ''\<close>, and \<open>''\<close> without elements.\<close>

definition last_response_text :: "snapshot \<Rightarrow> string" where
  "last_response_text s =
     (if length (response_elements s) = 0 then []
      else
        (let lastResponse = last (response_elements s)
         in if el_textContent lastResponse \<noteq> [] then el_textContent lastResponse
            else if el_innerText lastResponse \<noteq> [] then el_innerText lastResponse
            else []))"

text \<open>\<open>response.replace(/Copy$/, '').replace(/Copied!$/, '').trim()\<close>.\<close>

definition cleanup :: "string \<Rightarrow> string" where
  "cleanup r = trim (remove_suffix ''Copied!'' (remove_suffix ''Copy'' r))"

text \<open>
  The \<open>while (attempts < maxAttempts)\<close> loop with \<open>maxAttempts = 120\<close>; \<open>page k\<close> is
  what pass number \<open>k\<close> finds. The result is \<open>response\<close> and \<open>attempts\<close> when the loop
  is left: \<open>attempts\<close> is 120 exactly when it was not left by \<open>break\<close>.
\<close>

function app_wait :: "(nat \<Rightarrow> attempt) \<Rightarrow> nat \<Rightarrow> string \<Rightarrow> string \<times> nat" where
  "app_wait page attempts response =
     (if attempts < 120 then
        (case page attempts of
           AttemptThrows \<Rightarrow> app_wait page (attempts + 1) response
         | Page s \<Rightarrow>
             (let response' = (if copy_button s then last_response_text s else response)
              in if copy_button s \<and> response' \<noteq> [] \<and> trim response' \<noteq> []
                 then (cleanup response', attempts)
                 else if loading_indicators s = 0 \<and> last_response_text s \<noteq> []
                         \<and> trim (last_response_text s) \<noteq> []
                 then (cleanup (last_response_text s), attempts)
                 else app_wait page (attempts + 1) response'))
      else (response, attempts))"
  by pat_completeness auto
termination
  by (relation "measure (\<lambda>(page, attempts, response). 120 - attempts)") auto

declare app_wait.simps [simp del]

text \<open>
  The passes at which the loop reads a text that is not blank and leaves by \<open>break\<close>:
  the page shows the copy button or no loading indicator, and the text of its last
  response element is not blank.
\<close>

definition readable :: "snapshot \<Rightarrow> bool" where
  "readable s =
     ((copy_button s \<or> loading_indicators s = 0)
      \<and> last_response_text s \<noteq> [] \<and> trim (last_response_text s) \<noteq> [])"

text \<open>\<open>if (!response) throw new Error('No response received within timeout period')\<close>.\<close>

definition app_wait_result :: "string \<Rightarrow> string + string" where
  "app_wait_result response =
     (if response = [] then Inl ''No response received within timeout period'' else Inr response)"

text \<open>
  The browser as one call of \<open>simulateBrowserInteraction\<close> meets it: the message of the
  error thrown while launching, navigating, waiting for the selectors or selecting the
  model (\<open>None\<close> when all succeed), the temperature control, the message of the error
  thrown while typing, clicking or waiting for \<open>.chatbot-message\<close>, and the passes.
\<close>

record browser =
  setup_error :: "string option"
  temperature_input :: "temperature_control option"
  send_error :: "string option"
  passes :: "nat \<Rightarrow> attempt"

text \<open>
  \<open>simulateBrowserInteraction\<close>: the response it resolves with or the message of the error
  it throws, and the value written to the temperature control.
\<close>

definition simulateBrowserInteraction :: "browser \<Rightarrow> temperature_field \<Rightarrow> (string + string) \<times> control_value option" where
  "simulateBrowserInteraction b temperature =
     (case setup_error b of
        Some msg \<Rightarrow> (Inl msg, None)
      | None \<Rightarrow>
          (case app_set_temperature temperature (temperature_input b) of
             Inl msg \<Rightarrow> (Inl msg, None)
           | Inr written \<Rightarrow>
               (case send_error b of
                  Some msg \<Rightarrow> (Inl msg, written)
                | None \<Rightarrow> (app_wait_result (fst (app_wait (passes b) 0 [])), written))))"

section \<open>app.js: the encoder\<close>


definition app_chunk :: "string \<Rightarrow> int \<Rightarrow> string \<Rightarrow> json \<Rightarrow> json \<Rightarrow> json" where
  "app_chunk responseId created model delta finish_reason =
     JObj [(''id'', JStr responseId), (''object'', JStr ''chat.completion.chunk''),
           (''created'', JNum created), (''model'', JStr model),
           (''choices'', JArr [JObj [(''index'', JNum 0), (''delta'', delta), (''logprobs'', JNull),
                                     (''finish_reason'', finish_reason)]])]"

definition app_usage :: "string \<Rightarrow> string \<Rightarrow> json" where
  "app_usage formattedMessages response =
     JObj [(''prompt_tokens'', JNum (int (length formattedMessages))),
           (''completion_tokens'', JNum (int (length response))),
           (''total_tokens'', JNum (int (length formattedMessages) + int (length response)))]"

definition app_finish_chunk :: "string \<Rightarrow> int \<Rightarrow> string \<Rightarrow> string \<Rightarrow> string \<Rightarrow> json" where
  "app_finish_chunk responseId created model formattedMessages response =
     JObj [(''id'', JStr responseId), (''object'', JStr ''chat.completion.chunk''),
           (''created'', JNum created), (''model'', JStr model),
           (''choices'', JArr [JObj [(''index'', JNum 0), (''delta'', JObj []), (''logprobs'', JNull),
                                     (''finish_reason'', JStr ''stop'')]]),
           (''usage'', app_usage formattedMessages response)]"

text \<open>
  The streaming branch: the initial chunk is written before the browser is driven; then
  come the word chunks, the finish chunk and the terminator, or, from the \<open>catch\<close>, the
  error chunk and the terminator. \<open>outcome\<close> is what \<open>simulateBrowserInteraction\<close>
  resolved with (\<open>Inr\<close>) or the message of what it threw (\<open>Inl\<close>).
\<close>

definition app_stream :: "string \<Rightarrow> int \<Rightarrow> string \<Rightarrow> string \<Rightarrow> string + string \<Rightarrow> sse list" where
  "app_stream responseId created model formattedMessages outcome =
     Data (app_chunk responseId created model
             (JObj [(''role'', JStr ''assistant''), (''content'', JNull)]) JNull)
     # (case outcome of
          Inr response \<Rightarrow>
            map (\<lambda>payload. Data (app_chunk responseId created model
                                    (JObj [(''content'', JStr payload)]) JNull))
              (stream_word_payloads response)
            @ [Data (app_finish_chunk responseId created model formattedMessages response), Done]
        | Inl message \<Rightarrow>
            [Data (app_chunk responseId created model
                     (JObj [(''content'', JStr (''Error: '' @ message))]) (JStr ''stop'')),
             Done])"

definition app_completion :: "string \<Rightarrow> int \<Rightarrow> string \<Rightarrow> string \<Rightarrow> string + string \<Rightarrow> http_response" where
  "app_completion responseId created model formattedMessages outcome =
     (case outcome of
        Inr response \<Rightarrow>
          Response 200
            (JObj [(''id'', JStr responseId), (''object'', JStr ''chat.completion''),
                   (''created'', JNum created), (''model'', JStr model),
                   (''choices'', JArr [JObj [(''index'', JNum 0),
                                             (''message'', JObj [(''role'', JStr ''assistant''),
                                                                 (''content'', JStr response)]),
                                             (''finish_reason'', JStr ''stop'')]]),
                   (''usage'', app_usage formattedMessages response)])
      | Inl message \<Rightarrow>
          Response 500 (JObj [(''error'', JObj [(''message'', JStr message),
                                                (''type'', JStr ''internal_server_error'')])]))"

section \<open>app.js: POST /v1/chat/completions\<close>

text \<open>
  The \<open>messages\<close> member of the request body: falsy (missing, \<open>null\<close>), a truthy
  value that is not an array, or an array of messages, each its role and content.
\<close>

datatype messages_field = NoMessages | NotAnArray | Messages "(string \<times> string) list"







section \<open>server.js: handleChatCompletion\<close>



section \<open>chat.js: the encoder\<close>

text \<open>
  What \<open>waitForResponse\<close> resolves with: \<open>content\<close> is \<open>null\<close> when the page has no
  \<open>.response\<close> element, \<open>reasoning\<close> is \<open>null\<close> when it has no \<open>.responseReasoning\<close>.
\<close>

record completion_result =
  answer_content :: "string option"
  answer_reasoning :: "string option"

definition chat_usage :: json where
  "chat_usage = JObj [(''prompt_tokens'', JNum 0), (''completion_tokens'', JNum 0), (''total_tokens'', JNum 0)]"

text \<open>\<open>if (response.reasoning)\<close>: neither \<open>null\<close> nor the empty string.\<close>

definition has_reasoning :: "completion_result \<Rightarrow> bool" where
  "has_reasoning response = (case answer_reasoning response of None \<Rightarrow> False | Some r \<Rightarrow> r \<noteq> [])"

definition formatNonStreamResponse :: "string \<Rightarrow> int \<Rightarrow> completion_result \<Rightarrow> string \<Rightarrow> json" where
  "formatNonStreamResponse messageId timestamp response m =
     JObj [(''id'', JStr messageId), (''object'', JStr ''chat.completion''), (''created'', JNum timestamp),
           (''model'', JStr m),
           (''choices'',
            JArr [JObj [(''index'', JNum 0),
                        (''message'',
                         JObj ([(''role'', JStr ''assistant''),
                                (''content'', (case answer_content response of None \<Rightarrow> JNull | Some c \<Rightarrow> JStr c))]
                               @ (case answer_reasoning response of
                                    None \<Rightarrow> []
                                  | Some r \<Rightarrow> if r \<noteq> [] then [(''reasoning_content'', JStr r)] else []))),
                        (''finish_reason'', JStr ''stop'')]]),
           (''usage'', chat_usage)]"

definition chat_chunk :: "string \<Rightarrow> int \<Rightarrow> string \<Rightarrow> (string \<times> json) list \<Rightarrow> (string \<times> json) list" where
  "chat_chunk messageId timestamp m choice =
     [(''id'', JStr messageId), (''object'', JStr ''chat.completion.chunk''), (''created'', JNum timestamp),
      (''model'', JStr m), (''choices'', JArr [JObj ((''index'', JNum 0) # choice)])]"

text \<open>
  \<open>formatStreamResponse\<close>: the chunks (\<open>Inr\<close>) or the message of the TypeError that
  \<open>text.split\<close> throws on a \<open>null\<close> content (\<open>Inl\<close>); \<open>None\<close> would be a
  \<open>splitIntoChunks\<close> that does not return.
\<close>

definition formatStreamResponse :: "string \<Rightarrow> int \<Rightarrow> completion_result \<Rightarrow> string \<Rightarrow> (string + json list) option" where
  "formatStreamResponse messageId timestamp response m =
     (let first = JObj (chat_chunk messageId timestamp m
                   [(''delta'', JObj [(''role'', JStr ''assistant''), (''content'', JNull),
                                      (''reasoning_content'',
                                       if has_reasoning response then JStr [] else JNull)]),
                    (''logprobs'', JNull), (''finish_reason'', JNull)]);
          final = JObj (chat_chunk messageId timestamp m
                   [(''delta'', JObj [(''content'', JStr []), (''reasoning_content'', JNull)]),
                    (''finish_reason'', JStr ''stop'')]
                   @ [(''usage'', chat_usage)])
      in case (case answer_reasoning response of
                 None \<Rightarrow> Some []
               | Some r \<Rightarrow> if r \<noteq> [] then splitIntoChunks r 10 else Some []) of
           None \<Rightarrow> None
         | Some reasoningChunks \<Rightarrow>
             (case answer_content response of
                None \<Rightarrow> Some (Inl (''Cannot read properties of null (reading '' @ [CHR 0x27] @ ''split'' @ [CHR 0x27] @ '')''))
              | Some text \<Rightarrow>
                  (case splitIntoChunks text 10 of
                     None \<Rightarrow> None
                   | Some contentChunks \<Rightarrow>
                       Some (Inr (first
                         # map (\<lambda>chunk. JObj (chat_chunk messageId timestamp m
                                  [(''delta'', JObj [(''content'', JNull), (''reasoning_content'', JStr chunk)]),
                                   (''finish_reason'', JNull)])) reasoningChunks
                         @ map (\<lambda>chunk. JObj (chat_chunk messageId timestamp m
                                  [(''delta'', JObj [(''content'', JStr chunk), (''reasoning_content'', JNull)]),
                                   (''finish_reason'', JNull)])) contentChunks
                         @ [final])))))"

section \<open>index.js: the streaming route\<close>



section \<open>Reading chunks and usage objects\<close>




text \<open>\<open>total_tokens\<close> is \<open>prompt_tokens\<close> plus \<open>completion_tokens\<close>, all three being numbers.\<close>

definition usage_consistent :: "json \<Rightarrow> bool" where
  "usage_consistent u =
     (case (field ''prompt_tokens'' u, field ''completion_tokens'' u, field ''total_tokens'' u) of
        (Some (JNum p), Some (JNum c), Some (JNum t)) \<Rightarrow> t = p + c
      | _ \<Rightarrow> False)"

text \<open>The \<open>usage\<close> objects among the events written, in order.\<close>

fun usages :: "sse list \<Rightarrow> json list" where
  "usages [] = []"
| "usages (Done # events) = usages events"
| "usages (Data j # events) = (case field ''usage'' j of None \<Rightarrow> usages events | Some u \<Rightarrow> u # usages events)"

text \<open>
  Polls of a page whose answer gets its copy button on the last poll before the
  deadline, and a browser whose page shows a loading indicator throughout.
\<close>

definition slow_answer :: "poll list" where
  "slow_answer =
     [Seen [], Seen [\<lparr>textContent = ''Hello'', copyres = False\<rparr>],
      Seen [\<lparr>textContent = ''Hello worldCopy'', copyres = True\<rparr>]]"

definition loading_browser :: browser where
  "loading_browser =
     \<lparr>setup_error = None, temperature_input = None, send_error = None,
      passes = (\<lambda>k. Page \<lparr>copy_button = False,
                           response_elements = [\<lparr>el_textContent = ''Hel'', el_innerText = ''Hel''\<rparr>],
                           loading_indicators = 1\<rparr>)\<rparr>"

text \<open>An answer without reasoning, as \<open>waitForResponse\<close> resolves with it.\<close>

definition plain_answer :: completion_result where
  "plain_answer = \<lparr>answer_content = Some ''Hi there'', answer_reasoning = None\<rparr>"




section \<open>chat.js: waiting for the response\<close>

text \<open>
  What one pass of the loop of \<open>waitForResponse\<close> finds on the page: whether the
  document has a \<open>.copyres\<close> element, the text of the first \<open>.response\<close> element without
  its copy button (\<open>None\<close> without such an element) and the text of \<open>.responseReasoning\<close>
  (\<open>None\<close> without it).
\<close>

record chat_page =
  has_copyres :: bool
  response_text :: "string option"
  reasoning_text :: "string option"

text \<open>A pass can also throw, which the \<open>catch\<close> inside the loop swallows.\<close>

datatype chat_pass = PassThrows | Shown chat_page

text \<open>
  The loop over the passes that start before the timeout: the texts are read, trimmed
  and returned at the first pass that shows the copy button.
\<close>

fun waitForResponse :: "chat_pass list \<Rightarrow> string + completion_result" where
  "waitForResponse [] = Inl ''Response timeout''"
| "waitForResponse (PassThrows # ps) = waitForResponse ps"
| "waitForResponse (Shown pg # ps) =
     (if has_copyres pg
      then Inr \<lparr>answer_content = map_option trim (response_text pg),
                answer_reasoning = map_option trim (reasoning_text pg)\<rparr>
      else waitForResponse ps)"

text \<open>A browser whose page shows the finished answer with its copy button from the first pass.\<close>

definition answering_browser :: browser where
  "answering_browser =
     \<lparr>setup_error = None, temperature_input = None, send_error = None,
      passes = (\<lambda>k. Page \<lparr>copy_button = True,
                           response_elements = [\<lparr>el_textContent = ''Hi thereCopy'', el_innerText = []\<rparr>],
                           loading_indicators = 0\<rparr>)\<rparr>"



section \<open>Word chunking\<close>

lemma split_space_not_Nil: "split_space s \<noteq> []"
  by (induction s) (auto split: list.splits)

lemma join_space_Cons: "ws \<noteq> [] \<Longrightarrow> join_space (w # ws) = w @ CHR '' '' # join_space ws"
  by (cases ws) simp_all

lemma join_split_space: "join_space (split_space s) = s"
proof (induction s)
  case Nil
  show ?case by simp
next
  case (Cons c cs)
  show ?case
  proof (cases "c = CHR '' ''")
    case True
    with Cons show ?thesis by (simp add: join_space_Cons split_space_not_Nil)
  next
    case False
    obtain w ws where sp: "split_space cs = w # ws"
      using split_space_not_Nil [of cs] by (cases "split_space cs") auto
    have "join_space ((c # w) # ws) = c # join_space (w # ws)"
      by (cases ws) simp_all
    with False sp Cons show ?thesis by simp
  qed
qed

lemma join_space_append:
  "xs \<noteq> [] \<Longrightarrow> ys \<noteq> [] \<Longrightarrow> join_space (xs @ ys) = join_space xs @ CHR '' '' # join_space ys"
proof (induction xs rule: join_space.induct)
  case 1
  then show ?case by simp
next
  case (2 w)
  then show ?case by (simp add: join_space_Cons)
next
  case (3 w v ws)
  then show ?case by simp
qed

lemma chunks_loop_concat:
  "0 < n \<Longrightarrow> \<exists>r. chunks_loop ws n i acc = Some r \<and> concat r = concat acc @ join_space (drop i ws)"
proof (induction ws n i acc rule: chunks_loop.induct)
  case (1 ws n i acc)
  show ?case
  proof (cases "i < length ws")
    case False
    then show ?thesis by (subst chunks_loop.simps) simp
  next
    case True
    define c where "c = join_space (slice ws i (i + n))"
    define c' where "c' = (if i + n < length ws then c @ '' '' else c)"
    from "1.IH" [OF True _ c_def] "1.prems"
    obtain r where r: "chunks_loop ws n (i + n) (acc @ [c']) = Some r"
      and cr: "concat r = concat (acc @ [c']) @ join_space (drop (i + n) ws)"
      unfolding c'_def by auto
    have split: "drop i ws = take n (drop i ws) @ drop (i + n) ws"
      by (metis add.commute append_take_drop_id drop_drop)
    have tk: "take n (drop i ws) \<noteq> []"
      using True "1.prems" by simp
    have "c' @ join_space (drop (i + n) ws) = join_space (drop i ws)"
    proof (cases "i + n < length ws")
      case True
      then have "drop (i + n) ws \<noteq> []" by simp
      from join_space_append [OF tk this] split True show ?thesis
        by (simp add: c'_def c_def slice_def)
    next
      case False
      then have "drop (i + n) ws = []" by simp
      with split False show ?thesis
        by (simp add: c'_def c_def slice_def)
    qed
    with cr have "concat r = concat acc @ join_space (drop i ws)" by simp
    moreover have "chunks_loop ws n i acc = Some r"
      using True "1.prems" r
      by (subst chunks_loop.simps) (simp add: c'_def c_def Let_def split: if_splits)
    ultimately show ?thesis by blast
  qed
qed

lemma join_space_map: "join_space (w # ws) = w @ concat (map ((#) CHR '' '') ws)"
  by (induction ws arbitrary: w) (simp_all add: join_space_Cons)

lemma word_payloads_Suc: "word_payloads (Suc i) ws = map ((#) CHR '' '') ws"
  by (induction ws arbitrary: i) simp_all

lemma concat_word_payloads: "concat (word_payloads 0 ws) = join_space ws"
  by (cases ws) (simp_all add: word_payloads_Suc join_space_map)

text \<open>
  C2. For every completion text and every positive chunk size (the callers pass 10),
  \<open>splitIntoChunks\<close> returns, and the concatenation of its chunks in order is the text
  itself; the same holds for the one-word payloads of the streaming loop of app.js.
\<close>

theorem word_chunking_round_trip:
  "0 < chunkSize \<Longrightarrow>
     (\<exists>chunks. splitIntoChunks text chunkSize = Some chunks \<and> concat chunks = text)
     \<and> concat (stream_word_payloads text) = text"
proof -
  assume pos: "0 < chunkSize"
  from chunks_loop_concat [OF pos, of "split_space text" 0 "[]"]
  have "\<exists>chunks. splitIntoChunks text chunkSize = Some chunks \<and> concat chunks = text"
    by (simp add: splitIntoChunks_def join_split_space)
  moreover have "concat (stream_word_payloads text) = text"
    by (simp add: stream_word_payloads_def concat_word_payloads join_split_space)
  ultimately show ?thesis by blast
qed

theorem word_chunking_round_trip_witness:
  "(0::nat) < 2
   \<and> splitIntoChunks ''a b  c'' 2 = Some [''a b '', '' c'']
   \<and> concat [''a b '', '' c''] = ''a b  c''
   \<and> concat (stream_word_payloads ''a b  c'') = ''a b  c''"
proof -
  have pos: "(0::nat) < 2" by simp
  have ev: "splitIntoChunks ''a b  c'' 2 = Some [''a b '', '' c'']"
    by code_simp
  from word_chunking_round_trip [OF pos, of "''a b  c''"] ev show ?thesis
    by simp
qed

section \<open>Catalog refresh\<close>

lemma promise_all_never_rejects:
  "(\<And>p. p \<in> set ps \<Longrightarrow> f p = Inr (g p)) \<Longrightarrow> promise_all (map f ps) = Inr (map g ps)"
  by (induction ps) simp_all

lemma concat_map_filter_nonempty:
  "(\<And>p. p \<in> set ps \<Longrightarrow> \<not> ok p \<Longrightarrow> h p = []) \<Longrightarrow> concat (map h ps) = concat (map h (filter ok ps))"
  by (induction ps) simp_all

lemma fetchModelsFromPage_total:
  "fetchModelsFromPage web p = Inr (case page_models web p of Inl e \<Rightarrow> [] | Inr ms \<Rightarrow> ms)"
  by (simp add: fetchModelsFromPage_def split: sum.splits)

lemma fetchModelsFromPath_total:
  "fetchModelsFromPath web p = Inr (case path_models web p of Inl e \<Rightarrow> [] | Inr ms \<Rightarrow> ms)"
  by (simp add: fetchModelsFromPath_def split: sum.splits)

lemma page_models_throws: "web p = FetchThrows \<Longrightarrow> page_models web p = Inl UpstreamFetchError"
  by (simp add: page_models_def)

lemma path_models_throws: "web p = FetchThrows \<Longrightarrow> path_models web p = Inl UpstreamFetchError"
  by (simp add: path_models_def)

lemma fetchAllModels_concat:
  "fetchAllModels web =
     Inr (concat (map (\<lambda>q. case page_models web q of Inl e \<Rightarrow> [] | Inr ms \<Rightarrow> ms) MODEL_PATHS))"
proof -
  have "promise_all (map (fetchModelsFromPage web) MODEL_PATHS) =
        Inr (map (\<lambda>q. case page_models web q of Inl e \<Rightarrow> [] | Inr ms \<Rightarrow> ms) MODEL_PATHS)"
    by (rule promise_all_never_rejects) (rule fetchModelsFromPage_total)
  then show ?thesis by (simp add: fetchAllModels_def)
qed

lemma app_paths_never_reject:
  "promise_all (map (fetchModelsFromPath web) MODEL_PATHS) =
     Inr (map (\<lambda>q. case path_models web q of Inl e \<Rightarrow> [] | Inr ms \<Rightarrow> ms) MODEL_PATHS)"
  by (rule promise_all_never_rejects) (rule fetchModelsFromPath_total)

text \<open>
  C6. A path whose fetch throws gives the empty list, in models.js and in app.js alike,
  and rejects nothing; \<open>ModelManager.fetchAllModels\<close> never rejects, and what it
  resolves with is the models of the paths that did not throw, in the order of the paths.
  The fan-out of app.js never rejects either.
\<close>

theorem refresh_isolates_failing_paths:
  "(web p = FetchThrows \<longrightarrow> fetchModelsFromPage web p = Inr [] \<and> fetchModelsFromPath web p = Inr [])
   \<and> fetchAllModels web =
       Inr (concat (map (\<lambda>q. case page_models web q of Inl e \<Rightarrow> [] | Inr ms \<Rightarrow> ms)
                      (filter (\<lambda>q. web q \<noteq> FetchThrows) MODEL_PATHS)))
   \<and> promise_all (map (fetchModelsFromPath web) MODEL_PATHS) =
       Inr (map (\<lambda>q. case path_models web q of Inl e \<Rightarrow> [] | Inr ms \<Rightarrow> ms) MODEL_PATHS)"
proof -
  have a: "web p = FetchThrows \<longrightarrow> fetchModelsFromPage web p = Inr [] \<and> fetchModelsFromPath web p = Inr []"
    by (simp add: fetchModelsFromPage_total fetchModelsFromPath_total page_models_throws path_models_throws)
  have "concat (map (\<lambda>q. case page_models web q of Inl e \<Rightarrow> [] | Inr ms \<Rightarrow> ms) MODEL_PATHS) =
      concat (map (\<lambda>q. case page_models web q of Inl e \<Rightarrow> [] | Inr ms \<Rightarrow> ms)
                      (filter (\<lambda>q. web q \<noteq> FetchThrows) MODEL_PATHS))"
    by (rule concat_map_filter_nonempty) (simp add: page_models_throws)
  with fetchAllModels_concat [of web] have b: "fetchAllModels web =
       Inr (concat (map (\<lambda>q. case page_models web q of Inl e \<Rightarrow> [] | Inr ms \<Rightarrow> ms)
                      (filter (\<lambda>q. web q \<noteq> FetchThrows) MODEL_PATHS)))"
    by simp
  from a b app_paths_never_reject [of web] show ?thesis by blast
qed

theorem refresh_isolates_failing_paths_witness:
  "partial_site ''deepseek'' = FetchThrows
   \<and> fetchModelsFromPage partial_site ''deepseek'' = Inr []
   \<and> fetchModelsFromPath partial_site ''deepseek'' = Inr []
   \<and> fetchAllModels partial_site =
       Inr [\<lparr>model_id = ''gpt-4'', model_group = ''chatgpt''\<rparr>,
            \<lparr>model_id = ''o1'', model_group = ''chatgpt''\<rparr>,
            \<lparr>model_id = ''qwen-max'', model_group = ''qwen''\<rparr>]"
proof -
  have t: "partial_site ''deepseek'' = FetchThrows"
    by (simp add: partial_site_def)
  have "concat (map (\<lambda>q. case page_models partial_site q of Inl e \<Rightarrow> [] | Inr ms \<Rightarrow> ms)
                      (filter (\<lambda>q. partial_site q \<noteq> FetchThrows) MODEL_PATHS))
        = [\<lparr>model_id = ''gpt-4'', model_group = ''chatgpt''\<rparr>,
            \<lparr>model_id = ''o1'', model_group = ''chatgpt''\<rparr>,
            \<lparr>model_id = ''qwen-max'', model_group = ''qwen''\<rparr>]"
    by (simp add: MODEL_PATHS_def partial_site_def page_models_def toLowerCase_def lower_char_def)
  with t refresh_isolates_failing_paths [of partial_site "''deepseek''"] show ?thesis
    by simp
qed

section \<open>Cache expiry\<close>

text \<open>
  C7. A cache row whose \<open>expires_at\<close> is at or before the time of the read is not
  returned by \<open>getCache\<close>; a value is returned exactly when the key has a row and the read
  is strictly before its \<open>expires_at\<close>. Whatever \<open>setCache\<close> stored, and whenever, the
  read after it depends on the stored \<open>expires_at\<close> alone. server.js \<open>getModels\<close>, which
  runs the same query, makes a discovery when its row has expired.
\<close>

theorem cache_read_expiry:
  "(cache db key = Some row \<and> expires_at row \<le> now \<longrightarrow> getCache key now db = None)
   \<and> (getCache key now db = Some v \<longleftrightarrow>
        (\<exists>r. cache db key = Some r \<and> cache_value r = v \<and> now < expires_at r))
   \<and> getCache key now (setCache key v' e db) = (if now < e then Some v' else None)
   \<and> (cache db ''model_list'' = Some row \<and> expires_at row \<le> now \<longrightarrow>
        fst (snd (server_getModels days now dweb db)) = 1)"
proof -
  have a: "cache db key = Some row \<and> expires_at row \<le> now \<longrightarrow> getCache key now db = None"
    by (simp add: getCache_def)
  have b: "getCache key now db = Some v \<longleftrightarrow>
        (\<exists>r. cache db key = Some r \<and> cache_value r = v \<and> now < expires_at r)"
    by (auto simp: getCache_def split: option.splits)
  have c: "getCache key now (setCache key v' e db) = (if now < e then Some v' else None)"
    by (simp add: getCache_def setCache_def)
  have d: "cache db ''model_list'' = Some row \<and> expires_at row \<le> now \<longrightarrow>
        fst (snd (server_getModels days now dweb db)) = 1"
    by (simp add: server_getModels_def getCache_def split: prod.splits)
  from a b c d show ?thesis by blast
qed

theorem cache_read_expiry_witness:
  "cache stale_database ''k'' = Some \<lparr>cache_value = JStr ''v'', expires_at = 100\<rparr>
   \<and> getCache ''k'' 100 stale_database = None
   \<and> getCache ''k'' 99 stale_database = Some (JStr ''v'')
   \<and> getCache ''k'' 100 (setCache ''k'' (JStr ''w'') 101 stale_database) = Some (JStr ''w'')"
proof -
  have r: "cache stale_database ''k'' = Some \<lparr>cache_value = JStr ''v'', expires_at = 100\<rparr>"
    by (simp add: stale_database_def)
  have l: "getCache ''k'' 99 stale_database = Some (JStr ''v'')"
    by (simp add: stale_database_def getCache_def)
  from r l
    cache_read_expiry [of stale_database "''k''" "\<lparr>cache_value = JStr ''v'', expires_at = 100\<rparr>" 100
      "JStr ''v''" "JStr ''w''" 101]
  show ?thesis by simp
qed

section \<open>Catalog replacement\<close>

lemma insert_models_ok:
  "insert_models now ms tbl = Some tbl' \<Longrightarrow>
     tbl' = tbl @ map (\<lambda>m. \<lparr>row_id = model_id m, group_name = model_group m,
                             created_at = now, updated_at = now\<rparr>) ms"
proof (induction ms arbitrary: tbl)
  case Nil
  then show ?case by simp
next
  case (Cons m ms)
  from Cons.prems have "insert_models now ms
      (tbl @ [\<lparr>row_id = model_id m, group_name = model_group m, created_at = now, updated_at = now\<rparr>])
      = Some tbl'"
    by (simp split: if_splits)
  from Cons.IH [OF this] show ?case by simp
qed

lemma insert_models_distinct:
  "distinct (map row_id tbl @ map model_id ms) \<Longrightarrow> insert_models now ms tbl \<noteq> None"
  by (induction ms arbitrary: tbl) auto

lemma app_insert_models_ok:
  "app_insert_models now ms tbl = Some tbl' \<Longrightarrow>
     tbl' = tbl @ map (\<lambda>m. \<lparr>ar_id = am_id m, ar_group_name = am_group m, ar_path = am_path m,
                             ar_created_at = now\<rparr>) ms"
proof (induction ms arbitrary: tbl)
  case Nil
  then show ?case by simp
next
  case (Cons m ms)
  from Cons.prems have "app_insert_models now ms
      (tbl @ [\<lparr>ar_id = am_id m, ar_group_name = am_group m, ar_path = am_path m, ar_created_at = now\<rparr>])
      = Some tbl'"
    by (simp split: if_splits)
  from Cons.IH [OF this] show ?case by simp
qed


lemma saveModels_table:
  assumes "saveModels days now ms db = Some db'"
  shows "models db' = map (\<lambda>m. \<lparr>row_id = model_id m, group_name = model_group m,
                             created_at = now, updated_at = now\<rparr>) ms"
proof -
  from assms obtain tbl where it: "insert_models now ms [] = Some tbl" and "models db' = tbl"
    by (auto simp: saveModels_def setCache_def Let_def split: option.splits)
  with insert_models_ok [of now ms "[]" tbl] show ?thesis by simp
qed

lemma saveModels_distinct:
  assumes "distinct (map model_id ms)"
  shows "saveModels days now ms db \<noteq> None"
proof -
  from insert_models_distinct [of "[]" ms now] assms
  have "insert_models now ms [] \<noteq> None" by simp
  then show ?thesis
    by (auto simp: saveModels_def Let_def)
qed

lemma findModelGroup_absent:
  "i \<notin> set (map row_id (models db)) \<Longrightarrow> findModelGroup i db = None"
  by (auto simp: findModelGroup_def find_None_iff split: option.splits)

lemma app_fetchAllModels_table:
  assumes "app_fetchAllModels days now web adb = Some (Inr ams, adb')"
  shows "app_models adb' = map (\<lambda>m. \<lparr>ar_id = am_id m, ar_group_name = am_group m, ar_path = am_path m,
                                       ar_created_at = now\<rparr>) ams"
proof -
  obtain results where pr: "promise_all (map (fetchModelsFromPath web) MODEL_PATHS) = Inr results"
    using assms by (cases "promise_all (map (fetchModelsFromPath web) MODEL_PATHS)")
      (auto simp: app_fetchAllModels_def)
  from assms pr obtain tbl where it: "app_insert_models now (concat results) [] = Some tbl"
    and "ams = concat results" and "app_models adb' = tbl"
    by (auto simp: app_fetchAllModels_def Let_def split: if_splits option.splits)
  with app_insert_models_ok [of now "concat results" "[]" tbl] show ?thesis by simp
qed

lemma upsert_ids: "set (map row_id (upsert_model r tbl)) = insert (row_id r) (set (map row_id tbl))"
  by (auto simp: upsert_model_def)

lemma upsert_fold_ids:
  "set (map row_id (foldl (\<lambda>tb (i, t). upsert_model \<lparr>row_id = i, group_name = g,
                                              created_at = ts, updated_at = ts\<rparr> tb) tbl opts))
   = set (map row_id tbl) \<union> fst ` set opts"
proof (induction opts arbitrary: tbl)
  case Nil
  show ?case by simp
next
  case (Cons a opts)
  obtain i t where a: "a = (i, t)" by (cases a)
  show ?case
    unfolding a foldl_Cons prod.case Cons.IH upsert_ids by auto
qed

lemma found_ids_map:
  "found_ids (map (\<lambda>(i, t). JObj [(''id'', JStr i), (''text'', JStr t), (''group'', JStr g)]) opts)
   = map fst opts"
  by (induction opts) (auto simp: found_ids_def)

lemma found_ids_append: "found_ids (xs @ ys) = found_ids xs @ found_ids ys"
  by (simp add: found_ids_def)

lemma discover_path_ids:
  "discover_path ts web p tbl = (found, tbl') \<Longrightarrow>
     set (map row_id tbl') = set (map row_id tbl) \<union> set (found_ids found)"
proof (cases "web p")
  case NavigationThrows
  assume "discover_path ts web p tbl = (found, tbl')"
  with NavigationThrows show ?thesis by (auto simp: discover_path_def found_ids_def)
next
  case (Options opts)
  assume "discover_path ts web p tbl = (found, tbl')"
  with Options have f: "found = map (\<lambda>(i, t). JObj [(''id'', JStr i), (''text'', JStr t),
                               (''group'', JStr (toLowerCase p))]) opts"
    and t: "tbl' = foldl (\<lambda>tb (i, t). upsert_model \<lparr>row_id = i, group_name = toLowerCase p,
                                              created_at = ts, updated_at = ts\<rparr> tb) tbl opts"
    by (auto simp: discover_path_def)
  show ?thesis unfolding f t found_ids_map upsert_fold_ids by simp
qed

lemma discover_paths_ids:
  "discover_paths ts web ps tbl = (found, tbl') \<Longrightarrow>
     set (map row_id tbl') = set (map row_id tbl) \<union> set (found_ids found)"
proof (induction ps arbitrary: tbl found tbl')
  case Nil
  then show ?case by (simp add: found_ids_def)
next
  case (Cons p ps)
  obtain f1 t1 where d1: "discover_path ts web p tbl = (f1, t1)"
    by (cases "discover_path ts web p tbl")
  obtain f2 t2 where d2: "discover_paths ts web ps t1 = (f2, t2)"
    by (cases "discover_paths ts web ps t1")
  from Cons.prems d1 d2 have e: "found = f1 @ f2" "tbl' = t2" by auto
  from discover_path_ids [OF d1] Cons.IH [OF d2] show ?case
    unfolding e found_ids_append by auto
qed

lemma discoverModels_ids:
  assumes "discoverModels ts web db = (found, db')"
  shows "set (map row_id (models db')) = set (map row_id (models db)) \<union> set (found_ids found)"
proof -
  obtain f t where d: "discover_paths ts web MODEL_PATHS (models db) = (f, t)"
    by (cases "discover_paths ts web MODEL_PATHS (models db)")
  with assms have "found = f" "models db' = t"
    by (auto simp: discoverModels_def)
  with discover_paths_ids [OF d] show ?thesis by simp
qed

text \<open>
  C4 (as amended). A refresh through \<open>Database.saveModels\<close> that succeeds leaves in table
  \<open>models\<close> exactly the rows of the fetched records, in their order and stamped with the
  time of the refresh, so no id outside the fetched records is found afterwards; it
  succeeds whenever the fetched ids are distinct. app.js \<open>fetchAllModels\<close> replaces its
  table in the same way. server.js \<open>discoverModels\<close> writes with INSERT OR REPLACE and
  deletes nothing: the ids of its table afterwards are the ids before together with the
  ids found.
\<close>

theorem catalog_refresh_table:
  "(saveModels days now ms db = Some db' \<longrightarrow>
      models db' = map (\<lambda>m. \<lparr>row_id = model_id m, group_name = model_group m,
                              created_at = now, updated_at = now\<rparr>) ms
      \<and> (\<forall>i. i \<notin> set (map model_id ms) \<longrightarrow> findModelGroup i db' = None))
   \<and> (distinct (map model_id ms) \<longrightarrow> saveModels days now ms db \<noteq> None)
   \<and> (app_fetchAllModels adays anow web adb = Some (Inr ams, adb') \<longrightarrow>
        app_models adb' = map (\<lambda>m. \<lparr>ar_id = am_id m, ar_group_name = am_group m,
                                      ar_path = am_path m, ar_created_at = anow\<rparr>) ams
        \<and> map ar_id (app_models adb') = map am_id ams)
   \<and> (discoverModels ts dweb sdb = (found, sdb') \<longrightarrow>
        set (map row_id (models sdb')) = set (map row_id (models sdb)) \<union> set (found_ids found))"
proof -
  have a: "saveModels days now ms db = Some db' \<longrightarrow>
      models db' = map (\<lambda>m. \<lparr>row_id = model_id m, group_name = model_group m,
                              created_at = now, updated_at = now\<rparr>) ms
      \<and> (\<forall>i. i \<notin> set (map model_id ms) \<longrightarrow> findModelGroup i db' = None)"
  proof
    assume s: "saveModels days now ms db = Some db'"
    note t = saveModels_table [OF s]
    have "map row_id (models db') = map model_id ms"
      unfolding t by simp
    then have "\<forall>i. i \<notin> set (map model_id ms) \<longrightarrow> findModelGroup i db' = None"
      using findModelGroup_absent [of _ db'] by metis
    with t show "models db' = map (\<lambda>m. \<lparr>row_id = model_id m, group_name = model_group m,
                              created_at = now, updated_at = now\<rparr>) ms
      \<and> (\<forall>i. i \<notin> set (map model_id ms) \<longrightarrow> findModelGroup i db' = None)"
      by blast
  qed
  have c: "app_fetchAllModels adays anow web adb = Some (Inr ams, adb') \<longrightarrow>
        app_models adb' = map (\<lambda>m. \<lparr>ar_id = am_id m, ar_group_name = am_group m,
                                      ar_path = am_path m, ar_created_at = anow\<rparr>) ams
        \<and> map ar_id (app_models adb') = map am_id ams"
  proof
    assume f: "app_fetchAllModels adays anow web adb = Some (Inr ams, adb')"
    note t = app_fetchAllModels_table [OF f]
    have "map ar_id (app_models adb') = map am_id ams"
      unfolding t by simp
    with t show "app_models adb' = map (\<lambda>m. \<lparr>ar_id = am_id m, ar_group_name = am_group m,
                                      ar_path = am_path m, ar_created_at = anow\<rparr>) ams
        \<and> map ar_id (app_models adb') = map am_id ams"
      by blast
  qed
  from a c saveModels_distinct [of ms days now db]
    discoverModels_ids [of ts dweb sdb found sdb']
  show ?thesis by blast
qed

theorem catalog_refresh_table_witness:
  "(\<exists>db'. saveModels 7 5000 [\<lparr>model_id = ''gpt-4'', model_group = ''chatgpt''\<rparr>] stale_database = Some db'
       \<and> models db' = [\<lparr>row_id = ''gpt-4'', group_name = ''chatgpt'', created_at = 5000, updated_at = 5000\<rparr>]
       \<and> findModelGroup ''old-model'' db' = None)
   \<and> (\<exists>ams adb'. app_fetchAllModels 7 50 partial_site stale_app_database = Some (Inr ams, adb')
         \<and> map ar_id (app_models adb') = [''gpt-4'', ''o1'', ''qwen-max''])
   \<and> set (map row_id (models (snd (discoverModels 5 one_model_site stale_database))))
       = {''old-model'', ''gpt-4''}"
proof -
  let ?ms = "[\<lparr>model_id = ''gpt-4'', model_group = ''chatgpt''\<rparr>]"
  let ?app = "[\<lparr>am_id = ''gpt-4'', am_group = ''chatgpt'', am_path = ''chatGPT''\<rparr>,
               \<lparr>am_id = ''o1'', am_group = ''chatgpt'', am_path = ''chatGPT''\<rparr>,
               \<lparr>am_id = ''qwen-max'', am_group = ''qwen'', am_path = ''qwen''\<rparr>]"
  let ?found = "[JObj [(''id'', JStr ''gpt-4''), (''text'', JStr ''GPT 4''), (''group'', JStr ''chatgpt'')]]"
  define S where "S = discoverModels 5 one_model_site stale_database"
  obtain db' where h1: "saveModels 7 5000 ?ms stale_database = Some db'"
    by (simp add: saveModels_def Let_def)
  have h2: "distinct (map model_id ?ms)"
    by simp
  obtain adb' where h3: "app_fetchAllModels 7 50 partial_site stale_app_database = Some (Inr ?app, adb')"
    by (simp add: app_fetchAllModels_def MODEL_PATHS_def fetchModelsFromPath_def path_models_def
        partial_site_def toLowerCase_def lower_char_def trim_def is_space_def Let_def)
  have "fst S = ?found"
    unfolding S_def
    by (simp add: discoverModels_def MODEL_PATHS_def discover_path_def one_model_site_def
        toLowerCase_def lower_char_def)
  then have h4: "discoverModels 5 one_model_site stale_database = (?found, snd S)"
    unfolding S_def by (metis prod.collapse)
  have ids: "set (map row_id (models stale_database)) \<union> set (found_ids ?found) = {''old-model'', ''gpt-4''}"
    by (auto simp: stale_database_def found_ids_def)
  from catalog_refresh_table [where days = 7 and now = 5000 and ms = ?ms and db = stale_database
      and db' = db'
      and adays = 7 and anow = 50 and web = partial_site and adb = stale_app_database and ams = ?app
      and adb' = adb'
      and ts = 5 and dweb = one_model_site and sdb = stale_database and found = ?found
      and sdb' = "snd S"]
    h1 h2 h3 h4 ids
  show ?thesis unfolding S_def by simp
qed

text \<open>
  C4 as stated fails on server.js: an id that was in table \<open>models\<close> before the refresh
  and is not among the models found is still there afterwards.
\<close>

theorem catalog_refresh_table_counterexample:
  "found_ids (fst (discoverModels 5 one_model_site stale_database)) = [''gpt-4'']
   \<and> map row_id (models stale_database) = [''old-model'']
   \<and> map row_id (models (snd (discoverModels 5 one_model_site stale_database)))
       = [''old-model'', ''gpt-4'']"
  by (simp add: discoverModels_def MODEL_PATHS_def discover_path_def one_model_site_def
      toLowerCase_def lower_char_def found_ids_def stale_database_def upsert_model_def)

section \<open>A refresh that finds nothing\<close>

lemma promise_all_empty:
  "\<forall>p\<in>set ps. f p = Inr [] \<Longrightarrow> \<exists>rs. promise_all (map f ps) = Inr rs \<and> concat rs = []"
  by (induction ps) auto

text \<open>
  C5 (as amended). When no path yields a model, app.js \<open>fetchAllModels\<close> throws
  \<open>No models found from any path\<close> and its database is as before; \<open>getModelsList\<close> of
  models.js, when it refreshes, resolves with a list response whose \<open>data\<close> is empty, and
  its database is as before.
\<close>

theorem empty_refresh_keeps_catalog:
  "((\<forall>p\<in>set MODEL_PATHS. fetchModelsFromPath web p = Inr []) \<longrightarrow>
      app_fetchAllModels adays anow web adb = Some (Inl NoModelsFound, adb))
   \<and> ((\<forall>p\<in>set MODEL_PATHS. fetchModelsFromPage web p = Inr [])
        \<and> (forceRefresh \<or> \<not> isModelsCacheValid days now db \<or> getModels db = []) \<longrightarrow>
      getModelsList days now web forceRefresh db
        = Some (Inr (JObj [(''object'', JStr ''list''), (''data'', JArr [])]), db))"
proof -
  have a: "(\<forall>p\<in>set MODEL_PATHS. fetchModelsFromPath web p = Inr []) \<longrightarrow>
      app_fetchAllModels adays anow web adb = Some (Inl NoModelsFound, adb)"
  proof
    assume "\<forall>p\<in>set MODEL_PATHS. fetchModelsFromPath web p = Inr []"
    from promise_all_empty [OF this] show "app_fetchAllModels adays anow web adb = Some (Inl NoModelsFound, adb)"
      by (auto simp: app_fetchAllModels_def)
  qed
  have b: "(\<forall>p\<in>set MODEL_PATHS. fetchModelsFromPage web p = Inr [])
        \<and> (forceRefresh \<or> \<not> isModelsCacheValid days now db \<or> getModels db = []) \<longrightarrow>
      getModelsList days now web forceRefresh db
        = Some (Inr (JObj [(''object'', JStr ''list''), (''data'', JArr [])]), db)"
  proof
    assume h: "(\<forall>p\<in>set MODEL_PATHS. fetchModelsFromPage web p = Inr [])
        \<and> (forceRefresh \<or> \<not> isModelsCacheValid days now db \<or> getModels db = [])"
    then have "\<forall>p\<in>set MODEL_PATHS. fetchModelsFromPage web p = Inr []" by blast
    from promise_all_empty [OF this] have "fetchAllModels web = Inr []"
      by (auto simp: fetchAllModels_def)
    with h show "getModelsList days now web forceRefresh db
        = Some (Inr (JObj [(''object'', JStr ''list''), (''data'', JArr [])]), db)"
      by (auto simp: getModelsList_def formatModelsResponse_def)
  qed
  from a b show ?thesis by blast
qed

theorem empty_refresh_keeps_catalog_witness:
  "app_fetchAllModels 7 50 unreachable_site stale_app_database = Some (Inl NoModelsFound, stale_app_database)
   \<and> getModelsList 7 5000 unreachable_site True stale_database
       = Some (Inr (JObj [(''object'', JStr ''list''), (''data'', JArr [])]), stale_database)"
proof -
  have h1: "\<forall>p\<in>set MODEL_PATHS. fetchModelsFromPath unreachable_site p = Inr []"
    by (simp add: fetchModelsFromPath_def path_models_def unreachable_site_def)
  have h2: "\<forall>p\<in>set MODEL_PATHS. fetchModelsFromPage unreachable_site p = Inr []"
    by (simp add: fetchModelsFromPage_def page_models_def unreachable_site_def)
  from empty_refresh_keeps_catalog [where web = unreachable_site and adays = 7 and anow = 50
      and adb = stale_app_database and forceRefresh = True and days = 7 and now = 5000
      and db = stale_database] h1 h2
  show ?thesis by simp
qed

text \<open>
  C5 as stated fails on models.js: with every path failing, the forced refresh of
  \<open>getModelsList\<close> does not reject; it resolves with the empty list.
\<close>

theorem empty_refresh_keeps_catalog_counterexample:
  "fetchAllModels unreachable_site = Inr []
   \<and> getModelsList 7 5000 unreachable_site True stale_database
       = Some (Inr (JObj [(''object'', JStr ''list''), (''data'', JArr [])]), stale_database)"
  by (simp add: getModelsList_def fetchAllModels_def MODEL_PATHS_def fetchModelsFromPage_def
      page_models_def unreachable_site_def formatModelsResponse_def)

section \<open>Timeout with partial content\<close>

lemma texts_read_nonempty: "c \<in> set (texts_read polls) \<Longrightarrow> c \<noteq> []"
  by (induction polls rule: texts_read.induct) (auto split: option.splits if_splits)

lemma await_response_deadline:
  "await_response lastContent n polls = Deadline l \<Longrightarrow>
     l = (if texts_read polls = [] then lastContent else last (texts_read polls))"
proof (induction polls arbitrary: lastContent n)
  case Nil
  then show ?case by simp
next
  case (Cons p polls)
  show ?case
  proof (cases p)
    case (EvaluateThrows msg)
    with Cons.prems show ?thesis by simp
  next
    case (Seen doc)
    show ?thesis
    proof (cases "nonstream_extract doc")
      case None
      with Seen Cons.prems have "await_response lastContent n polls = Deadline l" by simp
      from Cons.IH [OF this] None Seen show ?thesis by simp
    next
      case (Some c)
      show ?thesis
      proof (cases "c = []")
        case True
        with Some Seen Cons.prems have "await_response lastContent n polls = Deadline l" by simp
        from Cons.IH [OF this] True Some Seen show ?thesis by simp
      next
        case False
        show ?thesis
        proof (cases "c = lastContent")
          case True
          with False Some Seen Cons.prems
          have "await_response lastContent (n + 1) polls = Deadline l"
            by (simp split: if_splits)
          from Cons.IH [OF this] True False Some Seen show ?thesis by simp
        next
          case diff: False
          with False Some Seen Cons.prems
          have "await_response c 0 polls = Deadline l" by simp
          from Cons.IH [OF this] diff False Some Seen show ?thesis by simp
        qed
      qed
    qed
  qed
qed

lemma await_response_no_copy_button:
  "\<forall>p\<in>set polls. \<exists>doc. p = Seen doc \<and> (doc = [] \<or> \<not> copyres (last doc)) \<Longrightarrow>
     await_response lastContent n polls = Deadline lastContent"
proof (induction polls)
  case Nil
  show ?case by simp
next
  case (Cons p polls)
  then obtain doc where p: "p = Seen doc" and d: "doc = [] \<or> \<not> copyres (last doc)"
    by auto
  from d have "nonstream_extract doc = None"
    by (auto simp: nonstream_extract_def Let_def)
  with p Cons show ?case by simp
qed

lemma app_wait_stalled:
  assumes "\<And>j. \<exists>s. page j = Page s \<and> \<not> copy_button s \<and> loading_indicators s \<noteq> 0"
  shows "k \<le> 120 \<Longrightarrow> app_wait page k r = (r, 120)"
proof (induction "120 - k" arbitrary: k)
  case 0
  then have "k = 120" by simp
  then show ?case by (subst app_wait.simps) simp
next
  case (Suc d)
  then have lt: "k < 120" and d: "d = 120 - (k + 1)" and le: "k + 1 \<le> 120" by simp_all
  from assms obtain s where s: "page k = Page s" "\<not> copy_button s" "loading_indicators s \<noteq> 0"
    by blast
  have "app_wait page k r = app_wait page (k + 1) r"
    using lt s by (subst app_wait.simps) simp
  with Suc.hyps(1) [OF d le] show ?case by simp
qed

lemma trim_Nil: "trim [] = []"
  by (simp add: trim_def)

lemma app_wait_step:
  assumes "k < 120" and "\<forall>s. page k = Page s \<longrightarrow> \<not> readable s"
  shows "\<exists>r'. app_wait page k r = app_wait page (k + 1) r'
           \<and> (r' = r \<or> (\<exists>s. page k = Page s \<and> copy_button s \<and> r' = last_response_text s))"
proof (cases "page k")
  case AttemptThrows
  with assms(1) have "app_wait page k r = app_wait page (k + 1) r"
    by (subst app_wait.simps) simp
  then show ?thesis by blast
next
  case (Page s)
  with assms(2) have nr: "\<not> readable s" by simp
  define r' where "r' = (if copy_button s then last_response_text s else r)"
  from nr have "app_wait page k r = app_wait page (k + 1) r'"
    using assms(1) Page
    by (subst app_wait.simps) (auto simp: readable_def r'_def Let_def)
  moreover have "r' = r \<or> (\<exists>s. page k = Page s \<and> copy_button s \<and> r' = last_response_text s)"
    using Page by (auto simp: r'_def)
  ultimately show ?thesis by blast
qed

lemma app_wait_quiet:
  assumes "\<forall>j. k \<le> j \<and> j < 120 \<longrightarrow> (\<forall>s. page j = Page s \<longrightarrow> \<not> readable s)"
  shows "k \<le> 120 \<Longrightarrow>
     snd (app_wait page k r) = 120
     \<and> (fst (app_wait page k r) = r
        \<or> (\<exists>j s. k \<le> j \<and> j < 120 \<and> page j = Page s \<and> copy_button s
               \<and> fst (app_wait page k r) = last_response_text s))"
  using assms
proof (induction "120 - k" arbitrary: k r)
  case 0
  then have "k = 120" by simp
  then show ?case by (subst (1 2 3) app_wait.simps) simp
next
  case (Suc d)
  then have lt: "k < 120" and d: "d = 120 - (k + 1)" and le: "k + 1 \<le> 120" by simp_all
  from Suc.prems(2) lt have nk: "\<forall>s. page k = Page s \<longrightarrow> \<not> readable s" by auto
  from app_wait_step [of k page r, OF lt nk] obtain r' where
    st: "app_wait page k r = app_wait page (k + 1) r'"
    and r': "r' = r \<or> (\<exists>s. page k = Page s \<and> copy_button s \<and> r' = last_response_text s)"
    by blast
  from Suc.prems(2) have "\<forall>j. k + 1 \<le> j \<and> j < 120 \<longrightarrow> (\<forall>s. page j = Page s \<longrightarrow> \<not> readable s)"
    by (auto dest: Suc_leD)
  from Suc.hyps(1) [OF d le this, of r']
  have ih: "snd (app_wait page (k + 1) r') = 120"
    "fst (app_wait page (k + 1) r') = r'
        \<or> (\<exists>j s. k + 1 \<le> j \<and> j < 120 \<and> page j = Page s \<and> copy_button s
               \<and> fst (app_wait page (k + 1) r') = last_response_text s)"
    by simp_all
  from ih(2) show ?case
  proof
    assume "fst (app_wait page (k + 1) r') = r'"
    with r' lt st ih(1) show ?thesis by auto
  next
    assume "\<exists>j s. k + 1 \<le> j \<and> j < 120 \<and> page j = Page s \<and> copy_button s
               \<and> fst (app_wait page (k + 1) r') = last_response_text s"
    then obtain j s where "k + 1 \<le> j" "j < 120" "page j = Page s" "copy_button s"
      "fst (app_wait page (k + 1) r') = last_response_text s" by blast
    then have "k \<le> j \<and> j < 120 \<and> page j = Page s \<and> copy_button s
        \<and> fst (app_wait page k r) = last_response_text s"
      using st by simp
    with st ih(1) show ?thesis by auto
  qed
qed

lemma app_wait_breaks:
  assumes "page j = Page s" and "readable s" and "j < 120"
  shows "k \<le> j \<Longrightarrow> \<forall>i. k \<le> i \<and> i < j \<longrightarrow> (\<forall>s'. page i = Page s' \<longrightarrow> \<not> readable s') \<Longrightarrow>
     app_wait page k r = (cleanup (last_response_text s), j)"
proof (induction "j - k" arbitrary: k r)
  case 0
  then have "k = j" by simp
  with assms show ?case
    by (subst app_wait.simps) (auto simp: readable_def Let_def)
next
  case (Suc d)
  then have lt: "k < j" and d: "d = j - (k + 1)" and le: "k + 1 \<le> j" by simp_all
  from lt assms(3) have k120: "k < 120" by simp
  from Suc.prems(2) lt have nk: "\<forall>s'. page k = Page s' \<longrightarrow> \<not> readable s'" by auto
  from app_wait_step [of k page r, OF k120 nk] obtain r' where
    st: "app_wait page k r = app_wait page (k + 1) r'" by blast
  from Suc.prems(2) have "\<forall>i. k + 1 \<le> i \<and> i < j \<longrightarrow> (\<forall>s'. page i = Page s' \<longrightarrow> \<not> readable s')"
    by (auto dest: Suc_leD)
  from Suc.hyps(1) [OF d le this, of r'] st show ?case by simp
qed

lemma app_wait_timeout_iff:
  "snd (app_wait page 0 r) = 120 \<longleftrightarrow> (\<forall>j<120. \<forall>s. page j = Page s \<longrightarrow> \<not> readable s)"
proof
  assume t: "snd (app_wait page 0 r) = 120"
  show "\<forall>j<120. \<forall>s. page j = Page s \<longrightarrow> \<not> readable s"
  proof (rule ccontr)
    assume "\<not> (\<forall>j<120. \<forall>s. page j = Page s \<longrightarrow> \<not> readable s)"
    then have ex: "\<exists>j. j < 120 \<and> (\<exists>s. page j = Page s \<and> readable s)" by blast
    define j where "j = (LEAST j. j < 120 \<and> (\<exists>s. page j = Page s \<and> readable s))"
    from ex have jp: "j < 120 \<and> (\<exists>s. page j = Page s \<and> readable s)"
      unfolding j_def by (rule LeastI_ex)
    then obtain s where s: "page j = Page s" "readable s" and j120: "j < 120" by blast
    have least: "\<forall>i. 0 \<le> i \<and> i < j \<longrightarrow> (\<forall>s'. page i = Page s' \<longrightarrow> \<not> readable s')"
    proof (intro allI impI)
      fix i s'
      assume i: "0 \<le> i \<and> i < j" and p: "page i = Page s'"
      show "\<not> readable s'"
      proof
        assume "readable s'"
        with i p j120 have "i < 120 \<and> (\<exists>s. page i = Page s \<and> readable s)" by auto
        then have "j \<le> i" unfolding j_def by (rule Least_le)
        with i show False by simp
      qed
    qed
    from app_wait_breaks [OF s j120 _ least, of r] have "snd (app_wait page 0 r) = j" by simp
    with t j120 show False by simp
  qed
next
  assume "\<forall>j<120. \<forall>s. page j = Page s \<longrightarrow> \<not> readable s"
  then have "\<forall>j. 0 \<le> j \<and> j < 120 \<longrightarrow> (\<forall>s. page j = Page s \<longrightarrow> \<not> readable s)" by simp
  from app_wait_quiet [OF this, of r] show "snd (app_wait page 0 r) = 120" by simp
qed

lemma app_wait_timeout_blank:
  assumes "app_wait page 0 [] = (response, 120)"
  shows "trim response = []"
proof -
  from assms have "snd (app_wait page 0 []) = 120" by simp
  then have q: "\<forall>j<120. \<forall>s. page j = Page s \<longrightarrow> \<not> readable s"
    by (simp add: app_wait_timeout_iff)
  then have "\<forall>j. 0 \<le> j \<and> j < 120 \<longrightarrow> (\<forall>s. page j = Page s \<longrightarrow> \<not> readable s)" by simp
  from app_wait_quiet [OF this, of "[]"] assms
  have "response = [] \<or> (\<exists>j s. j < 120 \<and> page j = Page s \<and> copy_button s
               \<and> response = last_response_text s)"
    by auto
  then show ?thesis
  proof
    assume "response = []"
    then show ?thesis by (simp add: trim_Nil)
  next
    assume "\<exists>j s. j < 120 \<and> page j = Page s \<and> copy_button s \<and> response = last_response_text s"
    then obtain j s where "j < 120" "page j = Page s" "copy_button s" "response = last_response_text s"
      by blast
    with q have "\<not> readable s" by blast
    with \<open>copy_button s\<close> \<open>response = last_response_text s\<close> show ?thesis
      by (auto simp: readable_def trim_Nil)
  qed
qed

lemma waitForResponse_timeout:
  "(waitForResponse ps = Inl e)
     = (e = ''Response timeout'' \<and> (\<forall>p\<in>set ps. \<forall>pg. p = Shown pg \<longrightarrow> \<not> has_copyres pg))"
  by (induction ps rule: waitForResponse.induct) auto

text \<open>
  C1 (as amended). server.js: when the polling loop of \<open>handleNonStreamingResponse\<close> is
  left by its deadline, the answer is a 200 completion whose content is the last text a
  poll read, if any poll read a text, and the 500 answer \<open>Response timeout\<close> if none did;
  that timeout answer is given only when no poll read a text. A poll reads a text only
  from a last response element that holds the copy button: when no poll shows one, the
  answer is \<open>Response timeout\<close> whatever text the page showed. app.js: the loop uses all
  its 120 attempts exactly when no pass shows a text that is not blank together with the
  copy button or without a loading indicator; at the first pass that does, it leaves with
  that text, cleaned. After 120 attempts the text it holds is blank, and
  \<open>simulateBrowserInteraction\<close> resolves with it if it is not empty and throws its
  timeout error if it is. chat.js: \<open>waitForResponse\<close> throws exactly when no pass
  showed the copy button, and what it throws is \<open>Response timeout\<close>.
\<close>

theorem partial_content_on_timeout:
  "(await_response [] 0 polls = Deadline lastContent \<longrightarrow>
      (texts_read polls \<noteq> [] \<longrightarrow>
         lastContent = last (texts_read polls) \<and> lastContent \<noteq> []
         \<and> handleNonStreamingResponse chatId created m polls
             = Response 200 (server_completion chatId created m lastContent))
      \<and> (texts_read polls = [] \<longrightarrow>
           handleNonStreamingResponse chatId created m polls
             = Response 500 (JObj [(''error'', JStr ''Response timeout'')])))
   \<and> (handleNonStreamingResponse chatId created m polls
         = Response 500 (JObj [(''error'', JStr ''Response timeout'')]) \<longrightarrow> texts_read polls = [])
   \<and> ((\<forall>p\<in>set polls. \<exists>doc. p = Seen doc \<and> (doc = [] \<or> \<not> copyres (last doc))) \<longrightarrow>
        handleNonStreamingResponse chatId created m polls
          = Response 500 (JObj [(''error'', JStr ''Response timeout'')]))
   \<and> (snd (app_wait (passes b) 0 []) = 120
        \<longleftrightarrow> (\<forall>j<120. \<forall>s. passes b j = Page s \<longrightarrow> \<not> readable s))
   \<and> (j < 120 \<and> passes b j = Page shown \<and> readable shown
        \<and> (\<forall>i<j. \<forall>s. passes b i = Page s \<longrightarrow> \<not> readable s) \<longrightarrow>
        app_wait (passes b) 0 [] = (cleanup (last_response_text shown), j))
   \<and> (setup_error b = None \<and> send_error b = None
        \<and> app_set_temperature t (temperature_input b) = Inr w
        \<and> app_wait (passes b) 0 [] = (response, 120) \<longrightarrow>
        trim response = []
        \<and> fst (simulateBrowserInteraction b t)
            = (if response \<noteq> [] then Inr response
               else Inl ''No response received within timeout period''))
   \<and> ((waitForResponse ps = Inl e)
        = (e = ''Response timeout'' \<and> (\<forall>p\<in>set ps. \<forall>pg. p = Shown pg \<longrightarrow> \<not> has_copyres pg)))"
proof -
  have last_ne: "texts_read polls \<noteq> [] \<Longrightarrow> last (texts_read polls) \<noteq> []"
    using texts_read_nonempty [of "last (texts_read polls)" polls] by simp
  have a: "await_response [] 0 polls = Deadline lastContent \<longrightarrow>
      (texts_read polls \<noteq> [] \<longrightarrow>
         lastContent = last (texts_read polls) \<and> lastContent \<noteq> []
         \<and> handleNonStreamingResponse chatId created m polls
             = Response 200 (server_completion chatId created m lastContent))
      \<and> (texts_read polls = [] \<longrightarrow>
           handleNonStreamingResponse chatId created m polls
             = Response 500 (JObj [(''error'', JStr ''Response timeout'')]))"
  proof
    assume d: "await_response [] 0 polls = Deadline lastContent"
    note l = await_response_deadline [OF d]
    show "(texts_read polls \<noteq> [] \<longrightarrow>
         lastContent = last (texts_read polls) \<and> lastContent \<noteq> []
         \<and> handleNonStreamingResponse chatId created m polls
             = Response 200 (server_completion chatId created m lastContent))
      \<and> (texts_read polls = [] \<longrightarrow>
           handleNonStreamingResponse chatId created m polls
             = Response 500 (JObj [(''error'', JStr ''Response timeout'')]))"
      using l d last_ne by (simp add: handleNonStreamingResponse_def)
  qed
  have b: "handleNonStreamingResponse chatId created m polls
         = Response 500 (JObj [(''error'', JStr ''Response timeout'')]) \<longrightarrow> texts_read polls = []"
  proof
    assume h: "handleNonStreamingResponse chatId created m polls
         = Response 500 (JObj [(''error'', JStr ''Response timeout'')])"
    then have "await_response [] 0 polls = Deadline []"
      by (cases "await_response [] 0 polls")
         (auto simp: handleNonStreamingResponse_def server_completion_def split: if_splits)
    from await_response_deadline [OF this] last_ne show "texts_read polls = []"
      by (auto split: if_splits)
  qed
  have c: "(\<forall>p\<in>set polls. \<exists>doc. p = Seen doc \<and> (doc = [] \<or> \<not> copyres (last doc))) \<longrightarrow>
        handleNonStreamingResponse chatId created m polls
          = Response 500 (JObj [(''error'', JStr ''Response timeout'')])"
  proof
    assume "\<forall>p\<in>set polls. \<exists>doc. p = Seen doc \<and> (doc = [] \<or> \<not> copyres (last doc))"
    from await_response_no_copy_button [OF this, of "[]" 0]
    show "handleNonStreamingResponse chatId created m polls
          = Response 500 (JObj [(''error'', JStr ''Response timeout'')])"
      by (simp add: handleNonStreamingResponse_def)
  qed
  have d: "j < 120 \<and> passes b j = Page shown \<and> readable shown
        \<and> (\<forall>i<j. \<forall>s. passes b i = Page s \<longrightarrow> \<not> readable s) \<longrightarrow>
        app_wait (passes b) 0 [] = (cleanup (last_response_text shown), j)"
  proof
    assume h: "j < 120 \<and> passes b j = Page shown \<and> readable shown
        \<and> (\<forall>i<j. \<forall>s. passes b i = Page s \<longrightarrow> \<not> readable s)"
    then have "\<forall>i. 0 \<le> i \<and> i < j \<longrightarrow> (\<forall>s'. passes b i = Page s' \<longrightarrow> \<not> readable s')" by simp
    with h app_wait_breaks [of "passes b" j shown 0 "[]"]
    show "app_wait (passes b) 0 [] = (cleanup (last_response_text shown), j)" by simp
  qed
  have e: "setup_error b = None \<and> send_error b = None
        \<and> app_set_temperature t (temperature_input b) = Inr w
        \<and> app_wait (passes b) 0 [] = (response, 120) \<longrightarrow>
        trim response = []
        \<and> fst (simulateBrowserInteraction b t)
            = (if response \<noteq> [] then Inr response
               else Inl ''No response received within timeout period'')"
    using app_wait_timeout_blank [of "passes b" response]
    by (simp add: simulateBrowserInteraction_def app_wait_result_def)
  from a b c d e app_wait_timeout_iff [of "passes b" "[]"] waitForResponse_timeout [of ps e]
  show ?thesis by blast
qed

theorem partial_content_on_timeout_witness:
  "handleNonStreamingResponse ''chatcmpl-1'' 7 ''gpt-4'' slow_answer
       = Response 200 (server_completion ''chatcmpl-1'' 7 ''gpt-4'' ''Hello world'')
   \<and> handleNonStreamingResponse ''chatcmpl-1'' 7 ''gpt-4'' [Seen [\<lparr>textContent = ''Hello'', copyres = False\<rparr>]]
       = Response 500 (JObj [(''error'', JStr ''Response timeout'')])
   \<and> texts_read [Seen [\<lparr>textContent = ''Hello'', copyres = False\<rparr>]] = []
   \<and> app_wait (passes answering_browser) 0 [] = (''Hi there'', 0)
   \<and> snd (app_wait (passes loading_browser) 0 []) = 120
   \<and> fst (simulateBrowserInteraction loading_browser NoTemperature)
       = Inl ''No response received within timeout period''
   \<and> waitForResponse [Shown \<lparr>has_copyres = False, response_text = Some ''Hel'', reasoning_text = None\<rparr>,
                       PassThrows] = Inl ''Response timeout''"
proof -
  let ?hello = "[Seen [\<lparr>textContent = ''Hello'', copyres = False\<rparr>]]"
  let ?shown = "\<lparr>copy_button = True,
                  response_elements = [\<lparr>el_textContent = ''Hi thereCopy'', el_innerText = []\<rparr>],
                  loading_indicators = 0\<rparr>"
  let ?ps = "[Shown \<lparr>has_copyres = False, response_text = Some ''Hel'', reasoning_text = None\<rparr>, PassThrows]"
  have ex: "nonstream_extract [\<lparr>textContent = ''Hello worldCopy'', copyres = True\<rparr>] = Some ''Hello world''"
    by (simp add: nonstream_extract_def trim_def is_space_def)
  have h1: "await_response [] 0 slow_answer = Deadline ''Hello world''"
    by (simp add: slow_answer_def ex) (simp add: nonstream_extract_def trim_def is_space_def)
  have h2: "texts_read slow_answer = [''Hello world'']"
    by (simp add: slow_answer_def ex) (simp add: nonstream_extract_def trim_def is_space_def)
  have h3: "\<forall>p\<in>set ?hello. \<exists>doc. p = Seen doc \<and> (doc = [] \<or> \<not> copyres (last doc))"
    by simp
  have h5: "\<forall>j<120. \<forall>s. passes loading_browser j = Page s \<longrightarrow> \<not> readable s"
    by (simp add: loading_browser_def readable_def)
  have h6: "(0::nat) < 120 \<and> passes answering_browser 0 = Page ?shown \<and> readable ?shown
        \<and> (\<forall>i<(0::nat). \<forall>s. passes answering_browser i = Page s \<longrightarrow> \<not> readable s)"
    by (simp add: answering_browser_def readable_def last_response_text_def trim_def is_space_def)
  have cl: "cleanup (last_response_text ?shown) = ''Hi there''"
    by (simp add: cleanup_def last_response_text_def remove_suffix_def trim_def is_space_def)
  have h7: "setup_error loading_browser = None \<and> send_error loading_browser = None
      \<and> app_set_temperature NoTemperature (temperature_input loading_browser) = Inr None"
    by (simp add: loading_browser_def app_set_temperature_def)
  have h8: "waitForResponse ?ps = Inl ''Response timeout''"
    by simp
  note w1 = partial_content_on_timeout [where polls = slow_answer and lastContent = "''Hello world''"
      and chatId = "''chatcmpl-1''" and created = 7 and m = "''gpt-4''" and b = answering_browser
      and j = 0 and shown = ?shown and t = NoTemperature and w = None and response = "[]"
      and ps = ?ps and e = "''Response timeout''"]
  note w2 = partial_content_on_timeout [where polls = ?hello and lastContent = "[]"
      and chatId = "''chatcmpl-1''" and created = 7 and m = "''gpt-4''" and b = loading_browser
      and j = 0 and shown = ?shown and t = NoTemperature and w = None
      and response = "fst (app_wait (passes loading_browser) 0 [])"
      and ps = ?ps and e = "''Response timeout''"]
  from w2 h5 have t120: "snd (app_wait (passes loading_browser) 0 []) = 120"
    by blast
  then have h9: "app_wait (passes loading_browser) 0 [] = (fst (app_wait (passes loading_browser) 0 []), 120)"
    by (metis prod.collapse)
  from w2 h7 h9 have res: "fst (simulateBrowserInteraction loading_browser NoTemperature)
            = (if fst (app_wait (passes loading_browser) 0 []) \<noteq> []
               then Inr (fst (app_wait (passes loading_browser) 0 []))
               else Inl ''No response received within timeout period'')"
    by blast
  have held: "fst (app_wait (passes loading_browser) 0 []) = []"
    using app_wait_stalled [of "passes loading_browser" 0 "[]"]
    by (simp add: loading_browser_def)
  from w1 h1 h2 have r1: "handleNonStreamingResponse ''chatcmpl-1'' 7 ''gpt-4'' slow_answer
       = Response 200 (server_completion ''chatcmpl-1'' 7 ''gpt-4'' ''Hello world'')"
    by simp
  from w2 h3 have r2: "handleNonStreamingResponse ''chatcmpl-1'' 7 ''gpt-4'' ?hello
       = Response 500 (JObj [(''error'', JStr ''Response timeout'')])"
    by blast
  from w2 r2 have r3: "texts_read ?hello = []"
    by blast
  from w1 h6 cl have r4: "app_wait (passes answering_browser) 0 [] = (''Hi there'', 0)"
    by simp
  from r1 r2 r3 r4 t120 res held h8 show ?thesis by simp
qed

text \<open>
  C1 as stated fails: with a text on the page at every poll but no copy button, server.js
  answers \<open>Response timeout\<close>; with a text on the page at every pass but a loading
  indicator and no copy button, app.js throws its timeout error.
\<close>

theorem partial_content_on_timeout_counterexample:
  "handleNonStreamingResponse ''chatcmpl-1'' 7 ''gpt-4''
       [Seen [\<lparr>textContent = ''Hello'', copyres = False\<rparr>],
        Seen [\<lparr>textContent = ''Hello there'', copyres = False\<rparr>]]
     = Response 500 (JObj [(''error'', JStr ''Response timeout'')])
   \<and> passes loading_browser 119
       = Page \<lparr>copy_button = False,
               response_elements = [\<lparr>el_textContent = ''Hel'', el_innerText = ''Hel''\<rparr>],
               loading_indicators = 1\<rparr>
   \<and> fst (simulateBrowserInteraction loading_browser NoTemperature)
       = Inl ''No response received within timeout period''"
proof -
  have "app_wait (passes loading_browser) 0 [] = ([], 120)"
    by (rule app_wait_stalled) (simp_all add: loading_browser_def)
  then show ?thesis
    by (simp add: handleNonStreamingResponse_def nonstream_extract_def loading_browser_def
        simulateBrowserInteraction_def app_set_temperature_def app_wait_result_def)
qed


section \<open>Temperature\<close>





section \<open>Usage objects\<close>

lemma usages_append: "usages (xs @ ys) = usages xs @ usages ys"
  by (induction xs rule: usages.induct) (auto split: option.splits)

lemma app_usage_consistent: "usage_consistent (app_usage f r)"
  by (simp add: usage_consistent_def app_usage_def)

lemma server_usage_consistent: "usage_consistent (server_usage c)"
  by (simp add: usage_consistent_def server_usage_def)

lemma chat_usage_consistent: "usage_consistent chat_usage"
  by (simp add: usage_consistent_def chat_usage_def)

lemma usages_app_words:
  "usages (map (\<lambda>payload. Data (app_chunk responseId created m (JObj [(''content'', JStr payload)]) JNull)) ws) = []"
  by (induction ws) (simp_all add: app_chunk_def)

lemma usages_app_stream:
  "usages (app_stream responseId created m f outcome)
     = (case outcome of Inl message \<Rightarrow> [] | Inr response \<Rightarrow> [app_usage f response])"
proof (cases outcome)
  case (Inl message)
  then show ?thesis by (simp add: app_stream_def app_chunk_def)
next
  case (Inr response)
  have "usages [Data (app_chunk responseId created m
             (JObj [(''role'', JStr ''assistant''), (''content'', JNull)]) JNull)] = []"
    by (simp add: app_chunk_def)
  moreover have "usages [Data (app_finish_chunk responseId created m f response), Done] = [app_usage f response]"
    by (simp add: app_finish_chunk_def)
  ultimately show ?thesis
    using Inr usages_app_words [of responseId created m "stream_word_payloads response"]
      usages_append [of "[Data (app_chunk responseId created m
             (JObj [(''role'', JStr ''assistant''), (''content'', JNull)]) JNull)]"]
    by (simp add: app_stream_def usages_append del: usages.simps)
qed

lemma usages_stream_polls:
  "list_all usage_consistent (usages (stream_polls chatId created m lastContent n polls))"
proof (induction polls arbitrary: lastContent n)
  case Nil
  show ?case by simp
next
  case (Cons p polls)
  show ?case
  proof (cases p)
    case (EvaluateThrows msg)
    then show ?thesis by simp
  next
    case (Seen doc)
    show ?thesis
    proof (cases "stream_extract doc")
      case None
      with Seen Cons.IH show ?thesis by simp
    next
      case (Some a)
      obtain c ic where a: "a = (c, ic)" by (cases a)
      show ?thesis
        unfolding Seen
        by (simp add: Some a Let_def usages_append Cons.IH server_chunk_def server_finish_chunk_def
            server_usage_consistent)
    qed
  qed
qed

lemma usages_formatStreamResponse:
  assumes "formatStreamResponse messageId timestamp response m = Some (Inr chunks)"
  shows "usages (map Data chunks) = [chat_usage]"
proof -
  define R where "R = (\<lambda>chunk. JObj (chat_chunk messageId timestamp m
                                  [(''delta'', JObj [(''content'', JNull), (''reasoning_content'', JStr chunk)]),
                                   (''finish_reason'', JNull)]))"
  define C where "C = (\<lambda>chunk. JObj (chat_chunk messageId timestamp m
                                  [(''delta'', JObj [(''content'', JStr chunk), (''reasoning_content'', JNull)]),
                                   (''finish_reason'', JNull)]))"
  define first where "first = JObj (chat_chunk messageId timestamp m
                   [(''delta'', JObj [(''role'', JStr ''assistant''), (''content'', JNull),
                                      (''reasoning_content'',
                                       if has_reasoning response then JStr [] else JNull)]),
                    (''logprobs'', JNull), (''finish_reason'', JNull)])"
  define final where "final = JObj (chat_chunk messageId timestamp m
                   [(''delta'', JObj [(''content'', JStr []), (''reasoning_content'', JNull)]),
                    (''finish_reason'', JStr ''stop'')]
                   @ [(''usage'', chat_usage)])"
  have R0: "usages (map Data (map R xs)) = []" for xs
    by (induction xs) (simp_all add: R_def chat_chunk_def)
  have C0: "usages (map Data (map C xs)) = []" for xs
    by (induction xs) (simp_all add: C_def chat_chunk_def)
  have F0: "usages [Data first] = []"
    by (simp add: first_def chat_chunk_def)
  have L0: "usages [Data final] = [chat_usage]"
    by (simp add: final_def chat_chunk_def)
  have "\<exists>rcs ccs. chunks = [first] @ map R rcs @ map C ccs @ [final]"
  proof (cases "case answer_reasoning response of
                 None \<Rightarrow> Some []
               | Some r \<Rightarrow> if r \<noteq> [] then splitIntoChunks r 10 else Some []")
    case None
    with assms show ?thesis by (simp add: formatStreamResponse_def Let_def)
  next
    case rc: (Some rcs)
    show ?thesis
    proof (cases "answer_content response")
      case None
      with assms rc show ?thesis by (simp add: formatStreamResponse_def Let_def)
    next
      case tx: (Some answer)
      show ?thesis
      proof (cases "splitIntoChunks answer 10")
        case None
        with assms rc tx show ?thesis by (simp add: formatStreamResponse_def Let_def)
      next
        case (Some ccs)
        with assms rc tx have "chunks = [first] @ map R rcs @ map C ccs @ [final]"
          by (simp add: formatStreamResponse_def Let_def R_def C_def first_def final_def)
        then show ?thesis by blast
      qed
    qed
  qed
  then obtain rcs ccs where "chunks = [first] @ map R rcs @ map C ccs @ [final]"
    by blast
  then have "usages (map Data chunks)
      = usages [Data first] @ usages (map Data (map R rcs)) @ usages (map Data (map C ccs)) @ usages [Data final]"
    by (simp only: map_append usages_append list.map)
  with R0 C0 F0 L0 show ?thesis by simp
qed

text \<open>
  C10. Every usage object the handlers emit has \<open>total_tokens\<close> equal to the sum of
  \<open>prompt_tokens\<close> and \<open>completion_tokens\<close>: the one in the completion response and the
  one in the finish chunk of app.js, the ones of \<open>handleNonStreamingResponse\<close> and of the
  finish chunk of \<open>handleStreamingResponse\<close> of server.js, and the ones of
  \<open>formatNonStreamResponse\<close> and of the final chunk of \<open>formatStreamResponse\<close> of chat.js.
\<close>

theorem usage_totals_add_up:
  "list_all usage_consistent (usages [Data (body_of (app_completion responseId created m f outcome))])
   \<and> list_all usage_consistent (usages (app_stream responseId created m f outcome))
   \<and> list_all usage_consistent (usages [Data (body_of (handleNonStreamingResponse chatId created m polls))])
   \<and> list_all usage_consistent (usages (handleStreamingResponse chatId created m polls))
   \<and> usages [Data (formatNonStreamResponse messageId timestamp response m)] = [chat_usage]
   \<and> usage_consistent chat_usage
   \<and> (formatStreamResponse messageId timestamp response m = Some (Inr chunks) \<longrightarrow>
        usages (map Data chunks) = [chat_usage])"
proof -
  have a: "list_all usage_consistent (usages [Data (body_of (app_completion responseId created m f outcome))])"
    by (cases outcome) (simp_all add: app_completion_def app_usage_consistent)
  have b: "list_all usage_consistent (usages (app_stream responseId created m f outcome))"
    by (cases outcome) (simp_all add: usages_app_stream app_usage_consistent)
  have c: "list_all usage_consistent (usages [Data (body_of (handleNonStreamingResponse chatId created m polls))])"
    by (cases "await_response [] 0 polls")
       (simp_all add: handleNonStreamingResponse_def server_completion_def server_usage_consistent)
  have d: "list_all usage_consistent (usages (handleStreamingResponse chatId created m polls))"
    using usages_stream_polls [of chatId created m "[]" 0 polls]
    by (simp add: handleStreamingResponse_def server_chunk_def)
  have e: "usages [Data (formatNonStreamResponse messageId timestamp response m)] = [chat_usage]"
    by (simp add: formatNonStreamResponse_def)
  from a b c d e chat_usage_consistent usages_formatStreamResponse [of messageId timestamp response m chunks]
  show ?thesis by blast
qed

theorem usage_totals_add_up_witness:
  "(\<exists>chunks. formatStreamResponse ''id'' 7 plain_answer ''gpt-4'' = Some (Inr chunks)
       \<and> usages (map Data chunks) = [chat_usage])
   \<and> usages (app_stream ''id'' 7 ''gpt-4'' ''user:hi'' (Inr ''Hi there''))
       = [JObj [(''prompt_tokens'', JNum 7), (''completion_tokens'', JNum 8), (''total_tokens'', JNum 15)]]
   \<and> usage_consistent (JObj [(''prompt_tokens'', JNum 7), (''completion_tokens'', JNum 8), (''total_tokens'', JNum 15)])"
proof -
  have ev: "splitIntoChunks ''Hi there'' 10 = Some [''Hi there'']"
    by code_simp
  obtain chunks where c: "formatStreamResponse ''id'' 7 plain_answer ''gpt-4'' = Some (Inr chunks)"
    by (simp add: formatStreamResponse_def plain_answer_def ev Let_def)
  have u: "usages (app_stream ''id'' 7 ''gpt-4'' ''user:hi'' (Inr ''Hi there''))
       = [JObj [(''prompt_tokens'', JNum 7), (''completion_tokens'', JNum 8), (''total_tokens'', JNum 15)]]"
    by (simp add: app_stream_def stream_word_payloads_def app_chunk_def app_finish_chunk_def app_usage_def)
  from usage_totals_add_up [of "''id''" 7 "''gpt-4''" "''user:hi''" "Inr ''Hi there''" "''id''" "[]"
      "''id''" 7 plain_answer chunks] c u
  show ?thesis by auto
qed

section \<open>The shape of a stream\<close>










section \<open>Unknown models\<close>













end
